theory Spec2Isabelle
  imports
    Complex_Main
    "HOL-Library.Word"
    "HOL-Library.List_Lexorder"
    "HOL-Library.Monad_Syntax"
begin

unbundle bit_operations_syntax

section \<open>AuthSessionSettings: the settings blob of auth\_session.cpp\<close>

text \<open>
  The development embeds \<^verbatim>\<open>AuthSessionSettings::serialize\<close>,
  \<^verbatim>\<open>AuthSessionSettings::constructFromSerialized\<close> and the two panel setters of
  \<^verbatim>\<open>Telegram/SourceFiles/auth_session.cpp\<close>. The blob is a list of bytes; the
  Qt stream the source reads it with is modelled below with its status flag, so
  that a read past the end is a value of the model and not an exception.
\<close>

subsection \<open>Machine types\<close>

type_synonym byte = "8 word"
type_synonym qint32 = "32 word"
type_synonym quint64 = "64 word"
type_synonym QChar = "16 word"
type_synonym QByteArray = "byte list"
type_synonym QString = "QChar list"
type_synonym PeerId = "64 word"

subsection \<open>Big-endian integers on the wire\<close>

text \<open>
  \<^verbatim>\<open>QDataStream\<close> writes integers most significant byte first unless the byte
  order is changed; the source never changes it.
\<close>

definition write_quint16 :: "QChar \<Rightarrow> QByteArray" where
  "write_quint16 c = [ucast (drop_bit 8 c), ucast c]"

definition qFromBigEndian16 :: "QByteArray \<Rightarrow> QChar" where
  "qFromBigEndian16 bs = push_bit 8 (ucast (bs ! 0)) OR ucast (bs ! 1)"

definition write_qint32 :: "qint32 \<Rightarrow> QByteArray" where
  "write_qint32 i =
     [ucast (drop_bit 24 i), ucast (drop_bit 16 i), ucast (drop_bit 8 i), ucast i]"

definition qFromBigEndian32 :: "QByteArray \<Rightarrow> qint32" where
  "qFromBigEndian32 bs =
     push_bit 24 (ucast (bs ! 0)) OR push_bit 16 (ucast (bs ! 1))
       OR push_bit 8 (ucast (bs ! 2)) OR ucast (bs ! 3)"

definition write_quint64 :: "quint64 \<Rightarrow> QByteArray" where
  "write_quint64 i =
     [ucast (drop_bit 56 i), ucast (drop_bit 48 i), ucast (drop_bit 40 i),
      ucast (drop_bit 32 i), ucast (drop_bit 24 i), ucast (drop_bit 16 i),
      ucast (drop_bit 8 i), ucast i]"

definition qFromBigEndian64 :: "QByteArray \<Rightarrow> quint64" where
  "qFromBigEndian64 bs =
     push_bit 56 (ucast (bs ! 0)) OR push_bit 48 (ucast (bs ! 1))
       OR push_bit 40 (ucast (bs ! 2)) OR push_bit 32 (ucast (bs ! 3))
       OR push_bit 24 (ucast (bs ! 4)) OR push_bit 16 (ucast (bs ! 5))
       OR push_bit 8 (ucast (bs ! 6)) OR ucast (bs ! 7)"

subsection \<open>The reading stream\<close>

text \<open>
  A \<^verbatim>\<open>QDataStream\<close> opened on a byte array: the bytes not yet consumed and the
  status. \<^verbatim>\<open>setStatus\<close> keeps the first error. A device read of \<open>n\<close> bytes that
  finds fewer than \<open>n\<close> consumes what is left and reports the short read.
\<close>

datatype Status = Ok | ReadPastEnd | ReadCorruptData

record QDataStream =
  device :: QByteArray
  q_status :: Status

definition openStream :: "QByteArray \<Rightarrow> QDataStream" where
  "openStream serialized = \<lparr>device = serialized, q_status = Ok\<rparr>"

definition atEnd :: "QDataStream \<Rightarrow> bool" where
  "atEnd s = (device s = [])"

definition setStatus :: "Status \<Rightarrow> QDataStream \<Rightarrow> QDataStream" where
  "setStatus st s = (if q_status s = Ok then s\<lparr>q_status := st\<rparr> else s)"

definition readBlock :: "nat \<Rightarrow> QDataStream \<Rightarrow> QByteArray option \<times> QDataStream" where
  "readBlock n s =
     (if n \<le> length (device s)
      then (Some (take n (device s)), s\<lparr>device := drop n (device s)\<rparr>)
      else (None, s\<lparr>device := []\<rparr>))"

text \<open>
  \<^verbatim>\<open>stream >> qint32\<close>: four bytes, or 0 and \<^verbatim>\<open>ReadPastEnd\<close>. A \<^verbatim>\<open>quint32\<close>
  is read from the same four bytes.
\<close>

definition read_qint32 :: "QDataStream \<Rightarrow> qint32 \<times> QDataStream" where
  "read_qint32 s =
     (case readBlock 4 s of
        (Some bs, s') \<Rightarrow> (qFromBigEndian32 bs, s')
      | (None, s') \<Rightarrow> (0, setStatus ReadPastEnd s'))"

text \<open>\<^verbatim>\<open>stream >> quint64\<close>: eight bytes, or 0 and \<^verbatim>\<open>ReadPastEnd\<close>.\<close>

definition read_quint64 :: "QDataStream \<Rightarrow> quint64 \<times> QDataStream" where
  "read_quint64 s =
     (case readBlock 8 s of
        (Some bs, s') \<Rightarrow> (qFromBigEndian64 bs, s')
      | (None, s') \<Rightarrow> (0, setStatus ReadPastEnd s'))"

text \<open>The UTF-16 code units of a string, two bytes each.\<close>

fun write_units :: "QString \<Rightarrow> QByteArray" where
  "write_units [] = []"
| "write_units (c # cs) = write_quint16 c @ write_units cs"

fun read_units :: "QByteArray \<Rightarrow> QString" where
  "read_units (a # b # bs) = qFromBigEndian16 [a, b] # read_units bs"
| "read_units _ = []"

text \<open>
  \<^verbatim>\<open>stream << QString\<close> (stream version Qt\_5\_1): the length in bytes as a
  \<^verbatim>\<open>quint32\<close>, then the code units. A null string (written as the length
  \<open>0xffffffff\<close>) compares equal to the empty one in Qt and is not told apart here.
\<close>

definition write_QString :: "QString \<Rightarrow> QByteArray" where
  "write_QString str = write_qint32 (of_nat (2 * length str)) @ write_units str"

text \<open>
  \<^verbatim>\<open>stream >> QString\<close>: the length \<open>0xffffffff\<close> is the null string, an odd
  length is \<^verbatim>\<open>ReadCorruptData\<close> (nothing more is consumed), a length the
  device cannot serve is \<^verbatim>\<open>ReadPastEnd\<close>; in each of these cases the string
  is left empty.
\<close>

definition read_QString :: "QDataStream \<Rightarrow> QString \<times> QDataStream" where
  "read_QString s =
     (case read_qint32 s of (bytes, s1) \<Rightarrow>
        if bytes = 0xffffffff then ([], s1)
        else if 0 < bytes then
          (if bytes AND 1 \<noteq> 0 then ([], setStatus ReadCorruptData s1)
           else (case readBlock (unat bytes) s1 of
                   (Some bs, s2) \<Rightarrow> (read_units bs, s2)
                 | (None, s2) \<Rightarrow> ([], setStatus ReadPastEnd s2)))
        else ([], s1))"

text \<open>
  \<^verbatim>\<open>stream << QByteArray\<close>: the length as a \<^verbatim>\<open>quint32\<close>, then the bytes. A
  null array (written as the length \<open>0xffffffff\<close>) is read back empty and is
  not told apart from the empty one here.
\<close>

definition write_QByteArray :: "QByteArray \<Rightarrow> QByteArray" where
  "write_QByteArray ba = write_qint32 (of_nat (length ba)) @ ba"

text \<open>
  \<^verbatim>\<open>stream >> QByteArray\<close>: the length \<open>0xffffffff\<close> is the null array; a length
  the device cannot serve clears the array and sets \<^verbatim>\<open>ReadPastEnd\<close>.
\<close>

definition read_QByteArray :: "QDataStream \<Rightarrow> QByteArray \<times> QDataStream" where
  "read_QByteArray s =
     (case read_qint32 s of (len, s1) \<Rightarrow>
        if len = 0xffffffff then ([], s1)
        else (case readBlock (unat len) s1 of
                (Some bs, s2) \<Rightarrow> (bs, s2)
              | (None, s2) \<Rightarrow> ([], setStatus ReadPastEnd s2)))"

subsection \<open>Containers\<close>

text \<open>
  \<^verbatim>\<open>QMap<QString, QString>\<close> keeps its entries ordered by key, one entry per
  key; strings compare by code units, a proper prefix first. The map is the
  list of its entries in iteration order, and \<^verbatim>\<open>map[key] = value\<close> inserts or
  replaces.
\<close>

type_synonym QMap = "(QString \<times> QString) list"

fun QMap_set :: "QString \<Rightarrow> QString \<Rightarrow> QMap \<Rightarrow> QMap" where
  "QMap_set key val [] = [(key, val)]"
| "QMap_set key val ((k, v) # m) =
     (if key < k then (key, val) # (k, v) # m
      else if key = k then (key, val) # m
      else (k, v) # QMap_set key val m)"

definition QMap_ok :: "QMap \<Rightarrow> bool" where
  "QMap_ok m = sorted_wrt (<) (map fst m)"

text \<open>
  \<^verbatim>\<open>base::flat_set<PeerId>\<close>: a sorted vector without duplicates;
  \<^verbatim>\<open>insert\<close> leaves the set alone when the element is there.
\<close>

type_synonym flat_set = "PeerId list"

fun flat_set_insert :: "PeerId \<Rightarrow> flat_set \<Rightarrow> flat_set" where
  "flat_set_insert x [] = [x]"
| "flat_set_insert x (y # ys) =
     (if x < y then x # y # ys
      else if x = y then y # ys
      else y # flat_set_insert x ys)"

definition flat_set_ok :: "flat_set \<Rightarrow> bool" where
  "flat_set_ok xs = sorted_wrt (<) xs"

subsection \<open>Helpers of the source that live in headers\<close>

text \<open>
  Modelled from the spec: \<^verbatim>\<open>snap\<close> is declared in a header outside the source
  file; the spec says the value is clamped to the closed range, and the source
  calls it as \<^verbatim>\<open>snap(value, min, max)\<close>.
\<close>

definition snap :: "'a::linorder \<Rightarrow> 'a \<Rightarrow> 'a \<Rightarrow> 'a" where
  "snap v lo hi = (if v < lo then lo else if hi < v then hi else v)"

subsection \<open>Double arithmetic\<close>

text \<open>
  A finite \<^verbatim>\<open>float64\<close> is the real number it stands for; a ratio that is an
  infinity or not a number is outside the model. The operations
  \<^verbatim>\<open>serialize\<close> does on doubles give the exact result rounded to the nearest
  double (IEEE 754 binary64, ties to even): \<open>roundDouble\<close>. The binade of a
  non-zero \<open>x\<close> is the \<open>e\<close> with \<open>2^e \<le> |x| < 2^(e+1)\<close>; doubles of a
  binade \<open>e\<close> are \<open>2^(e-52)\<close> apart, and \<open>2^(-1074)\<close> apart below
  \<open>2^(-1022)\<close>. A result beyond the largest double, an infinity in C++, is a
  real beyond the range of \<^verbatim>\<open>int\<close> here and is converted to \<^verbatim>\<open>int\<close> in the same
  way.
\<close>

function bitLength :: "int \<Rightarrow> int" where
  "bitLength n = (if n \<le> 0 then 0 else 1 + bitLength (n div 2))"
  by auto
termination
  by (relation "measure nat") auto

declare bitLength.simps [simp del]

definition pow2 :: "int \<Rightarrow> real" where
  "pow2 e = (if 0 \<le> e then 2 ^ nat e else 1 / 2 ^ nat (- e))"

definition binade :: "real \<Rightarrow> int" where
  "binade x =
     (if 1 \<le> \<bar>x\<bar> then bitLength \<lfloor>\<bar>x\<bar>\<rfloor> - 1
      else (let k = bitLength \<lfloor>1 / \<bar>x\<bar>\<rfloor> - 1
            in if \<bar>x\<bar> * pow2 k = 1 then - k else - k - 1))"

definition roundHalfEven :: "real \<Rightarrow> int" where
  "roundHalfEven m =
     (let f = \<lfloor>m\<rfloor>; d = m - of_int f
      in if d < 1 / 2 then f else if 1 / 2 < d then f + 1 else if even f then f else f + 1)"

definition roundDouble :: "real \<Rightarrow> real" where
  "roundDouble x =
     (if x = 0 then 0
      else (let q = pow2 (max (binade x) (- 1022) - 52)
            in of_int (roundHalfEven (x / q)) * q))"

text \<open>
  The conversion \<^verbatim>\<open>int(d)\<close> of C++ drops the fraction. For a value outside the
  range of \<^verbatim>\<open>int\<close> it is undefined in C++; the value here, \<open>0x80000000\<close>, is
  what the conversion instruction of x86-64 gives.
\<close>

definition toInt :: "real \<Rightarrow> qint32" where
  "toInt d =
     (if - 2147483649 < d \<and> d < 2147483648
      then word_of_int (if 0 \<le> d then \<lfloor>d\<rfloor> else \<lceil>d\<rceil>)
      else - 2147483648)"

text \<open>
  Qt's \<^verbatim>\<open>qRound(double)\<close> is
  \<^verbatim>\<open>d >= 0.0 ? int(d + 0.5) : int(d - double(int(d-1)) + 0.5) + int(d-1)\<close>:
  each sum and difference is a double operation, an \<^verbatim>\<open>int\<close> converts to a
  double exactly, and the sum of the two \<^verbatim>\<open>int\<close>s wraps around at 32 bits.
\<close>

definition qRound :: "real \<Rightarrow> qint32" where
  "qRound d =
     (if 0 \<le> d then toInt (roundDouble (d + 1 / 2))
      else toInt (roundDouble
                    (roundDouble (d - real_of_int (sint (toInt (roundDouble (d - 1)))))
                     + 1 / 2))
           + toInt (roundDouble (d - 1)))"

text \<open>
  The value \<^verbatim>\<open>serialize\<close> writes for the ratio (lines 78 to 81):
  \<^verbatim>\<open>qint32(snap(qRound(ratio * 1000000), 0, 1000000))\<close>, the product being a
  double product and \<^verbatim>\<open>snap\<close> comparing signed integers.
\<close>

definition ratioSlot :: "real \<Rightarrow> qint32" where
  "ratioSlot ratio =
     word_of_int (snap (sint (qRound (roundDouble (ratio * 1000000)))) 0 1000000)"

text \<open>
  The enumerators the source names are declared in headers outside the source
  file. An object of an enumeration type holds an integer of the underlying
  type and \<^verbatim>\<open>static_cast\<close> keeps that integer, so the enumeration-typed
  fields are \<^verbatim>\<open>qint32\<close> values and the enumerators are parameters.
\<close>

record enumerators =
  SelectorTab_Emoji :: qint32
  SelectorTab_Stickers :: qint32
  SelectorTab_Gifs :: qint32
  Column_First :: qint32
  Column_Second :: qint32
  Column_Third :: qint32
  RectPart_TopLeft :: qint32
  RectPart_TopRight :: qint32
  RectPart_BottomLeft :: qint32
  RectPart_BottomRight :: qint32
  SendFilesWay_Album :: qint32
  SendFilesWay_Photos :: qint32
  SendFilesWay_Files :: qint32
  InputSubmitSettings_Enter :: qint32
  InputSubmitSettings_CtrlEnter :: qint32
  SwitchSettings_None :: qint32
  SwitchSettings_Next :: qint32
  SwitchSettings_Previous :: qint32

definition kLegacyCallsPeerToPeerNobody :: qint32 where
  "kLegacyCallsPeerToPeerNobody = 4"

subsection \<open>The settings record\<close>

text \<open>
  \<^verbatim>\<open>AuthSessionSettings::Variables\<close>, in the order \<^verbatim>\<open>serialize\<close> writes the
  fields. The type \<open>'ad\<close> is \<^verbatim>\<open>Data::AutoDownload::Full\<close>, whose code is not
  part of the source file.
\<close>

record 'ad Variables =
  selectorTab :: qint32
  lastSeenWarningSeen :: bool
  tabbedSelectorSectionEnabled :: bool
  soundOverrides :: QMap
  tabbedSelectorSectionTooltipShown :: qint32
  floatPlayerColumn :: qint32
  floatPlayerCorner :: qint32
  groupStickersSectionHidden :: flat_set
  thirdSectionInfoEnabled :: bool
  smallDialogsList :: bool
  dialogsWidthRatio :: real
  thirdColumnWidth :: qint32
  thirdSectionExtendedBy :: qint32
  sendFilesWay :: qint32
  hadLegacyCallsPeerToPeerNobody :: bool
  sendSubmitWay :: qint32
  supportSwitch :: qint32
  supportFixChatsOrder :: bool
  supportTemplatesAutocomplete :: bool
  supportChatsTimeSlice :: qint32
  includeMutedCounter :: bool
  countUnreadMessages :: bool
  exeLaunchWarning :: bool
  autoDownload :: 'ad
  supportAllSearchResults :: bool
  archiveCollapsed :: bool
  notifyAboutPinned :: bool

text \<open>
  The constructor \<^verbatim>\<open>Variables::Variables()\<close> (lines 39 to 46) sets the six
  enumeration-typed fields. Every other member has the initialiser of its
  declaration, which is in the header \<^verbatim>\<open>auth_session.h\<close>, outside the source
  file; the values below are those of that header (the ratio is the constant
  \<^verbatim>\<open>5. / 14\<close>, a double division). The argument \<open>a\<close> is a default-constructed
  \<^verbatim>\<open>Data::AutoDownload::Full\<close>.
\<close>

definition kDefaultDialogsWidthRatio :: real where
  "kDefaultDialogsWidthRatio = roundDouble (5 / 14)"

definition defaultVariables :: "enumerators \<Rightarrow> 'ad \<Rightarrow> 'ad Variables" where
  "defaultVariables E a =
     \<lparr> selectorTab = SelectorTab_Emoji E,
       lastSeenWarningSeen = False,
       tabbedSelectorSectionEnabled = False,
       soundOverrides = [],
       tabbedSelectorSectionTooltipShown = 0,
       floatPlayerColumn = Column_Second E,
       floatPlayerCorner = RectPart_TopRight E,
       groupStickersSectionHidden = [],
       thirdSectionInfoEnabled = True,
       smallDialogsList = False,
       dialogsWidthRatio = kDefaultDialogsWidthRatio,
       thirdColumnWidth = 0,
       thirdSectionExtendedBy = - 1,
       sendFilesWay = SendFilesWay_Album E,
       hadLegacyCallsPeerToPeerNobody = False,
       sendSubmitWay = InputSubmitSettings_Enter E,
       supportSwitch = SwitchSettings_Next E,
       supportFixChatsOrder = True,
       supportTemplatesAutocomplete = True,
       supportChatsTimeSlice = 604800,
       includeMutedCounter = True,
       countUnreadMessages = True,
       exeLaunchWarning = True,
       autoDownload = a,
       supportAllSearchResults = False,
       archiveCollapsed = False,
       notifyAboutPinned = True \<rparr>"

subsection \<open>serialize\<close>

fun write_soundOverrides :: "QMap \<Rightarrow> QByteArray" where
  "write_soundOverrides [] = []"
| "write_soundOverrides ((key, val) # m) =
     write_QString key @ write_QString val @ write_soundOverrides m"

fun write_groupStickersSectionHidden :: "flat_set \<Rightarrow> QByteArray" where
  "write_groupStickersSectionHidden [] = []"
| "write_groupStickersSectionHidden (peerId # ps) =
     write_quint64 peerId @ write_groupStickersSectionHidden ps"

definition write_bool :: "bool \<Rightarrow> QByteArray" where
  "write_bool b = write_qint32 (if b then 1 else 0)"

text \<open>
  \<^verbatim>\<open>AuthSessionSettings::serialize\<close>. The first argument is the serializer of
  the auto-download settings. The size the source computes first only reserves
  memory.
\<close>

definition serialize :: "('ad \<Rightarrow> QByteArray) \<Rightarrow> 'ad Variables \<Rightarrow> QByteArray" where
  "serialize autoDownload_serialize v =
     write_qint32 (selectorTab v)
     @ write_bool (lastSeenWarningSeen v)
     @ write_bool (tabbedSelectorSectionEnabled v)
     @ write_qint32 (of_nat (length (soundOverrides v)))
     @ write_soundOverrides (soundOverrides v)
     @ write_qint32 (tabbedSelectorSectionTooltipShown v)
     @ write_qint32 (floatPlayerColumn v)
     @ write_qint32 (floatPlayerCorner v)
     @ write_qint32 (of_nat (length (groupStickersSectionHidden v)))
     @ write_groupStickersSectionHidden (groupStickersSectionHidden v)
     @ write_bool (thirdSectionInfoEnabled v)
     @ write_bool (smallDialogsList v)
     @ write_qint32 (ratioSlot (dialogsWidthRatio v))
     @ write_qint32 (thirdColumnWidth v)
     @ write_qint32 (thirdSectionExtendedBy v)
     @ write_qint32 (sendFilesWay v)
     @ write_qint32 0
     @ write_qint32 (sendSubmitWay v)
     @ write_qint32 (supportSwitch v)
     @ write_bool (supportFixChatsOrder v)
     @ write_bool (supportTemplatesAutocomplete v)
     @ write_qint32 (supportChatsTimeSlice v)
     @ write_bool (includeMutedCounter v)
     @ write_bool (countUnreadMessages v)
     @ write_bool (exeLaunchWarning v)
     @ write_QByteArray (autoDownload_serialize (autoDownload v))
     @ write_bool (supportAllSearchResults v)
     @ write_bool (archiveCollapsed v)
     @ write_bool (notifyAboutPinned v)"

subsection \<open>constructFromSerialized: the scratch values\<close>

text \<open>
  The local variables of \<^verbatim>\<open>constructFromSerialized\<close> (lines 109 to 135 of the
  source), each with the initial value the source gives it: a constant for the
  fields up to \<^verbatim>\<open>smallDialogsList\<close>, the current value of the record for the
  later ones.
\<close>

record locals =
  l_selectorTab :: qint32
  l_lastSeenWarningSeen :: qint32
  l_tabbedSelectorSectionEnabled :: qint32
  l_tabbedSelectorSectionTooltipShown :: qint32
  l_floatPlayerColumn :: qint32
  l_floatPlayerCorner :: qint32
  l_soundOverrides :: QMap
  l_groupStickersSectionHidden :: flat_set
  l_thirdSectionInfoEnabled :: qint32
  l_smallDialogsList :: qint32
  l_dialogsWidthRatio :: real
  l_thirdColumnWidth :: qint32
  l_thirdSectionExtendedBy :: qint32
  l_sendFilesWay :: qint32
  l_legacyCallsPeerToPeer :: qint32
  l_sendSubmitWay :: qint32
  l_supportSwitch :: qint32
  l_supportFixChatsOrder :: qint32
  l_supportTemplatesAutocomplete :: qint32
  l_supportChatsTimeSlice :: qint32
  l_includeMutedCounter :: qint32
  l_countUnreadMessages :: qint32
  l_exeLaunchWarning :: qint32
  l_autoDownload :: QByteArray
  l_supportAllSearchResults :: qint32
  l_archiveCollapsed :: qint32
  l_notifyAboutPinned :: qint32

definition of_bool32 :: "bool \<Rightarrow> qint32" where
  "of_bool32 b = (if b then 1 else 0)"

definition initLocals :: "enumerators \<Rightarrow> 'ad Variables \<Rightarrow> locals" where
  "initLocals E v =
     \<lparr> l_selectorTab = SelectorTab_Emoji E,
       l_lastSeenWarningSeen = 0,
       l_tabbedSelectorSectionEnabled = 1,
       l_tabbedSelectorSectionTooltipShown = 0,
       l_floatPlayerColumn = Column_Second E,
       l_floatPlayerCorner = RectPart_TopRight E,
       l_soundOverrides = [],
       l_groupStickersSectionHidden = [],
       l_thirdSectionInfoEnabled = 0,
       l_smallDialogsList = 0,
       l_dialogsWidthRatio = dialogsWidthRatio v,
       l_thirdColumnWidth = thirdColumnWidth v,
       l_thirdSectionExtendedBy = thirdSectionExtendedBy v,
       l_sendFilesWay = sendFilesWay v,
       l_legacyCallsPeerToPeer = 0,
       l_sendSubmitWay = sendSubmitWay v,
       l_supportSwitch = supportSwitch v,
       l_supportFixChatsOrder = of_bool32 (supportFixChatsOrder v),
       l_supportTemplatesAutocomplete = of_bool32 (supportTemplatesAutocomplete v),
       l_supportChatsTimeSlice = supportChatsTimeSlice v,
       l_includeMutedCounter = of_bool32 (includeMutedCounter v),
       l_countUnreadMessages = of_bool32 (countUnreadMessages v),
       l_exeLaunchWarning = of_bool32 (exeLaunchWarning v),
       l_autoDownload = [],
       l_supportAllSearchResults = of_bool32 (supportAllSearchResults v),
       l_archiveCollapsed = of_bool32 (archiveCollapsed v),
       l_notifyAboutPinned = of_bool32 (notifyAboutPinned v) \<rparr>"

subsection \<open>constructFromSerialized: the reads\<close>

text \<open>
  The two counted loops (lines 146 to 150 and 163 to 167). The counter is an
  \<^verbatim>\<open>int\<close> compared with \<^verbatim>\<open>!=\<close>, so the loops are not bounded by their
  form: they are partial functions into \<open>option\<close>, where \<open>None\<close> is a loop
  that never ends, and the increment wraps around at 32 bits.
\<close>

partial_function (option) soundOverridesLoop ::
  "qint32 \<Rightarrow> qint32 \<Rightarrow> QDataStream \<Rightarrow> QMap \<Rightarrow> (QDataStream \<times> QMap) option" where
  "soundOverridesLoop i count stream overrides =
     (if i \<noteq> count then
        (case read_QString stream of (key, stream1) \<Rightarrow>
         case read_QString stream1 of (val, stream2) \<Rightarrow>
           soundOverridesLoop (i + 1) count stream2 (QMap_set key val overrides))
      else Some (stream, overrides))"

declare soundOverridesLoop.simps [code]

partial_function (option) groupStickersLoop ::
  "qint32 \<Rightarrow> qint32 \<Rightarrow> QDataStream \<Rightarrow> flat_set \<Rightarrow> (QDataStream \<times> flat_set) option" where
  "groupStickersLoop i count stream hidden =
     (if i \<noteq> count then
        (case read_quint64 stream of (peerId, stream1) \<Rightarrow>
           groupStickersLoop (i + 1) count stream1 (flat_set_insert peerId hidden))
      else Some (stream, hidden))"

declare groupStickersLoop.simps [code]

text \<open>
  The reads in the order of the source. Each function is one statement group
  of lines 137 to 220 and is numbered after the last field group of the blob it
  reads: \<open>readGroup2\<close> is the two reads of lines 137 and 138, which are not
  guarded, and every later function is one \<^verbatim>\<open>if (!stream.atEnd())\<close> block. The
  state is the stream with the scratch values.
\<close>

type_synonym rstate = "QDataStream \<times> locals"

fun readGroup2 :: "rstate \<Rightarrow> rstate" where
  "readGroup2 (stream, d) =
     (case read_qint32 stream of (x, stream) \<Rightarrow>
      case read_qint32 stream of (y, stream) \<Rightarrow>
        (stream, d\<lparr>l_selectorTab := x, l_lastSeenWarningSeen := y\<rparr>))"

fun readGroup3 :: "rstate \<Rightarrow> rstate" where
  "readGroup3 (stream, d) =
     (if \<not> atEnd stream then
        (case read_qint32 stream of (x, stream) \<Rightarrow>
           (stream, d\<lparr>l_tabbedSelectorSectionEnabled := x\<rparr>))
      else (stream, d))"

fun readGroup4 :: "rstate \<Rightarrow> rstate option" where
  "readGroup4 (stream, d) =
     (if \<not> atEnd stream then
        (case read_qint32 stream of (count, stream) \<Rightarrow>
           if q_status stream = Ok then
             (case soundOverridesLoop 0 count stream (l_soundOverrides d) of
                None \<Rightarrow> None
              | Some (stream, m) \<Rightarrow> Some (stream, d\<lparr>l_soundOverrides := m\<rparr>))
           else Some (stream, d))
      else Some (stream, d))"

fun readGroup5 :: "rstate \<Rightarrow> rstate" where
  "readGroup5 (stream, d) =
     (if \<not> atEnd stream then
        (case read_qint32 stream of (x, stream) \<Rightarrow>
           (stream, d\<lparr>l_tabbedSelectorSectionTooltipShown := x\<rparr>))
      else (stream, d))"

fun readGroup6 :: "rstate \<Rightarrow> rstate" where
  "readGroup6 (stream, d) =
     (if \<not> atEnd stream then
        (case read_qint32 stream of (x, stream) \<Rightarrow>
         case read_qint32 stream of (y, stream) \<Rightarrow>
           (stream, d\<lparr>l_floatPlayerColumn := x, l_floatPlayerCorner := y\<rparr>))
      else (stream, d))"

fun readGroup7 :: "rstate \<Rightarrow> rstate option" where
  "readGroup7 (stream, d) =
     (if \<not> atEnd stream then
        (case read_qint32 stream of (count, stream) \<Rightarrow>
           if q_status stream = Ok then
             (case groupStickersLoop 0 count stream (l_groupStickersSectionHidden d) of
                None \<Rightarrow> None
              | Some (stream, h) \<Rightarrow> Some (stream, d\<lparr>l_groupStickersSectionHidden := h\<rparr>))
           else Some (stream, d))
      else Some (stream, d))"

fun readGroup8 :: "rstate \<Rightarrow> rstate" where
  "readGroup8 (stream, d) =
     (if \<not> atEnd stream then
        (case read_qint32 stream of (x, stream) \<Rightarrow>
         case read_qint32 stream of (y, stream) \<Rightarrow>
           (stream, d\<lparr>l_thirdSectionInfoEnabled := x, l_smallDialogsList := y\<rparr>))
      else (stream, d))"

text \<open>
  Line 177, \<^verbatim>\<open>snap(val1 / 1000000., 0., 1.)\<close>: the integer read is converted to a
  double, which is exact, and the quotient is a double division.
\<close>

definition decodeRatio :: "qint32 \<Rightarrow> real" where
  "decodeRatio val = snap (roundDouble (real_of_int (sint val) / 1000000)) 0 1"

fun readGroup9 :: "rstate \<Rightarrow> rstate" where
  "readGroup9 (stream, d) =
     (if \<not> atEnd stream then
        (case read_qint32 stream of (val1, stream) \<Rightarrow>
         case read_qint32 stream of (val2, stream) \<Rightarrow>
         case read_qint32 stream of (val3, stream) \<Rightarrow>
           (stream, d\<lparr>l_dialogsWidthRatio := decodeRatio val1,
                       l_thirdColumnWidth := val2,
                       l_thirdSectionExtendedBy := val3\<rparr>))
      else (stream, d))"

fun readGroup10 :: "rstate \<Rightarrow> rstate" where
  "readGroup10 (stream, d) =
     (if \<not> atEnd stream then
        (case read_qint32 stream of (x, stream) \<Rightarrow> (stream, d\<lparr>l_sendFilesWay := x\<rparr>))
      else (stream, d))"

fun readGroup11 :: "rstate \<Rightarrow> rstate" where
  "readGroup11 (stream, d) =
     (if \<not> atEnd stream then
        (case read_qint32 stream of (x, stream) \<Rightarrow>
           (stream, d\<lparr>l_legacyCallsPeerToPeer := x\<rparr>))
      else (stream, d))"

fun readGroup12 :: "rstate \<Rightarrow> rstate" where
  "readGroup12 (stream, d) =
     (if \<not> atEnd stream then
        (case read_qint32 stream of (x, stream) \<Rightarrow>
         case read_qint32 stream of (y, stream) \<Rightarrow>
         case read_qint32 stream of (z, stream) \<Rightarrow>
           (stream, d\<lparr>l_sendSubmitWay := x, l_supportSwitch := y,
                       l_supportFixChatsOrder := z\<rparr>))
      else (stream, d))"

fun readGroup13 :: "rstate \<Rightarrow> rstate" where
  "readGroup13 (stream, d) =
     (if \<not> atEnd stream then
        (case read_qint32 stream of (x, stream) \<Rightarrow>
           (stream, d\<lparr>l_supportTemplatesAutocomplete := x\<rparr>))
      else (stream, d))"

fun readGroup14 :: "rstate \<Rightarrow> rstate" where
  "readGroup14 (stream, d) =
     (if \<not> atEnd stream then
        (case read_qint32 stream of (x, stream) \<Rightarrow>
           (stream, d\<lparr>l_supportChatsTimeSlice := x\<rparr>))
      else (stream, d))"

fun readGroup15 :: "rstate \<Rightarrow> rstate" where
  "readGroup15 (stream, d) =
     (if \<not> atEnd stream then
        (case read_qint32 stream of (x, stream) \<Rightarrow>
         case read_qint32 stream of (y, stream) \<Rightarrow>
           (stream, d\<lparr>l_includeMutedCounter := x, l_countUnreadMessages := y\<rparr>))
      else (stream, d))"

fun readGroup16 :: "rstate \<Rightarrow> rstate" where
  "readGroup16 (stream, d) =
     (if \<not> atEnd stream then
        (case read_qint32 stream of (x, stream) \<Rightarrow> (stream, d\<lparr>l_exeLaunchWarning := x\<rparr>))
      else (stream, d))"

fun readGroup17 :: "rstate \<Rightarrow> rstate" where
  "readGroup17 (stream, d) =
     (if \<not> atEnd stream then
        (case read_QByteArray stream of (ba, stream) \<Rightarrow> (stream, d\<lparr>l_autoDownload := ba\<rparr>))
      else (stream, d))"

fun readGroup18 :: "rstate \<Rightarrow> rstate" where
  "readGroup18 (stream, d) =
     (if \<not> atEnd stream then
        (case read_qint32 stream of (x, stream) \<Rightarrow>
           (stream, d\<lparr>l_supportAllSearchResults := x\<rparr>))
      else (stream, d))"

fun readGroup19 :: "rstate \<Rightarrow> rstate" where
  "readGroup19 (stream, d) =
     (if \<not> atEnd stream then
        (case read_qint32 stream of (x, stream) \<Rightarrow> (stream, d\<lparr>l_archiveCollapsed := x\<rparr>))
      else (stream, d))"

fun readGroup20 :: "rstate \<Rightarrow> rstate" where
  "readGroup20 (stream, d) =
     (if \<not> atEnd stream then
        (case read_qint32 stream of (x, stream) \<Rightarrow> (stream, d\<lparr>l_notifyAboutPinned := x\<rparr>))
      else (stream, d))"

text \<open>The reads after the second loop (lines 170 to 220), groups 8 to 20.\<close>

definition readTail :: "rstate \<Rightarrow> rstate" where
  "readTail st =
     readGroup20 (readGroup19 (readGroup18 (readGroup17 (readGroup16 (readGroup15
       (readGroup14 (readGroup13 (readGroup12 (readGroup11 (readGroup10 (readGroup9
         (readGroup8 st))))))))))))"

text \<open>Lines 107 to 220: open the stream, set up the scratch values, read.\<close>

definition readFields :: "enumerators \<Rightarrow> 'ad Variables \<Rightarrow> QByteArray \<Rightarrow> rstate option" where
  "readFields E v serialized =
     do {
       st4 \<leftarrow> readGroup4 (readGroup3 (readGroup2 (openStream serialized, initLocals E v)));
       st7 \<leftarrow> readGroup7 (readGroup6 (readGroup5 st4));
       Some (readTail st7)
     }"

subsection \<open>constructFromSerialized: the assignments\<close>

text \<open>
  Lines 231 to 291: the scratch values are assigned to the record. A
  \<^verbatim>\<open>switch\<close> over the legal enumerators assigns the value when it is one of
  them and does nothing otherwise. An integer assigned to a \<^verbatim>\<open>bool\<close> is true
  when it is not zero. The change events of the reactive fields are not
  modelled.
\<close>

definition commit :: "enumerators \<Rightarrow> locals \<Rightarrow> 'ad Variables \<Rightarrow> 'ad Variables" where
  "commit E d v =
     (let v1 = v
        \<lparr> selectorTab :=
            (if l_selectorTab d = SelectorTab_Emoji E
                \<or> l_selectorTab d = SelectorTab_Stickers E
                \<or> l_selectorTab d = SelectorTab_Gifs E
             then l_selectorTab d else selectorTab v),
          lastSeenWarningSeen := (l_lastSeenWarningSeen d = 1),
          tabbedSelectorSectionEnabled := (l_tabbedSelectorSectionEnabled d = 1),
          soundOverrides := l_soundOverrides d,
          tabbedSelectorSectionTooltipShown := l_tabbedSelectorSectionTooltipShown d,
          floatPlayerColumn :=
            (if l_floatPlayerColumn d = Column_First E
                \<or> l_floatPlayerColumn d = Column_Second E
                \<or> l_floatPlayerColumn d = Column_Third E
             then l_floatPlayerColumn d else floatPlayerColumn v),
          floatPlayerCorner :=
            (if l_floatPlayerCorner d = RectPart_TopLeft E
                \<or> l_floatPlayerCorner d = RectPart_TopRight E
                \<or> l_floatPlayerCorner d = RectPart_BottomLeft E
                \<or> l_floatPlayerCorner d = RectPart_BottomRight E
             then l_floatPlayerCorner d else floatPlayerCorner v),
          groupStickersSectionHidden := l_groupStickersSectionHidden d,
          thirdSectionInfoEnabled := (l_thirdSectionInfoEnabled d \<noteq> 0),
          smallDialogsList := (l_smallDialogsList d \<noteq> 0),
          dialogsWidthRatio := l_dialogsWidthRatio d,
          thirdColumnWidth := l_thirdColumnWidth d,
          thirdSectionExtendedBy := l_thirdSectionExtendedBy d \<rparr>;
        v2 = (if thirdSectionInfoEnabled v1
              then v1\<lparr>tabbedSelectorSectionEnabled := False\<rparr> else v1)
      in v2
        \<lparr> sendFilesWay :=
            (if l_sendFilesWay d = SendFilesWay_Album E
                \<or> l_sendFilesWay d = SendFilesWay_Photos E
                \<or> l_sendFilesWay d = SendFilesWay_Files E
             then l_sendFilesWay d else sendFilesWay v),
          sendSubmitWay :=
            (if l_sendSubmitWay d = InputSubmitSettings_Enter E
                \<or> l_sendSubmitWay d = InputSubmitSettings_CtrlEnter E
             then l_sendSubmitWay d else sendSubmitWay v),
          supportSwitch :=
            (if l_supportSwitch d = SwitchSettings_None E
                \<or> l_supportSwitch d = SwitchSettings_Next E
                \<or> l_supportSwitch d = SwitchSettings_Previous E
             then l_supportSwitch d else supportSwitch v),
          supportFixChatsOrder := (l_supportFixChatsOrder d = 1),
          supportTemplatesAutocomplete := (l_supportTemplatesAutocomplete d = 1),
          supportChatsTimeSlice := l_supportChatsTimeSlice d,
          hadLegacyCallsPeerToPeerNobody :=
            (l_legacyCallsPeerToPeer d = kLegacyCallsPeerToPeerNobody),
          includeMutedCounter := (l_includeMutedCounter d = 1),
          countUnreadMessages := (l_countUnreadMessages d = 1),
          exeLaunchWarning := (l_exeLaunchWarning d = 1),
          supportAllSearchResults := (l_supportAllSearchResults d = 1),
          archiveCollapsed := (l_archiveCollapsed d = 1),
          notifyAboutPinned := (l_notifyAboutPinned d = 1) \<rparr>)"

subsection \<open>constructFromSerialized\<close>

text \<open>
  The function returns nothing in the source; the model returns which
  \<^verbatim>\<open>return\<close> was taken, the lines written to the log and the record after
  the call. \<open>None\<close> is a call that does not return.

  \<^verbatim>\<open>Data::AutoDownload::Full::setFromSerialized\<close> is not part of the source
  file. It is the parameter \<open>setFromSerialized\<close>: given the current
  auto-download settings and the sub-blob, it returns its answer and the
  auto-download settings it leaves behind, on which nothing is assumed.
\<close>

datatype Outcome = EmptyInput | BadData | AutoDownloadRejected | Decoded

definition badDataMessage :: string where
  "badDataMessage =
     ''App Error: Bad data for AuthSessionSettings::constructFromSerialized()''"

definition constructFromSerialized ::
  "enumerators \<Rightarrow> ('ad \<Rightarrow> QByteArray \<Rightarrow> bool \<times> 'ad) \<Rightarrow> 'ad Variables \<Rightarrow> QByteArray
     \<Rightarrow> (Outcome \<times> string list \<times> 'ad Variables) option" where
  "constructFromSerialized E setFromSerialized v serialized =
     (if serialized = [] then Some (EmptyInput, [], v)
      else
        (case readFields E v serialized of
           None \<Rightarrow> None
         | Some (stream, d) \<Rightarrow>
             if q_status stream \<noteq> Ok then Some (BadData, [badDataMessage], v)
             else if l_autoDownload d \<noteq> [] then
               (case setFromSerialized (autoDownload v) (l_autoDownload d) of
                  (accepted, a) \<Rightarrow>
                    if \<not> accepted then Some (AutoDownloadRejected, [], v\<lparr>autoDownload := a\<rparr>)
                    else Some (Decoded, [], commit E d (v\<lparr>autoDownload := a\<rparr>)))
             else Some (Decoded, [], commit E d v)))"

subsection \<open>The panel setters\<close>

text \<open>
  The settings object: the record, the flag \<^verbatim>\<open>_tabbedReplacedWithInfo\<close> and the
  values fired on the two event streams, oldest first.
\<close>

datatype Event = TabbedReplacedWithInfoValue bool | ThirdSectionInfoEnabledValue bool

record 'ad AuthSessionSettings =
  variables :: "'ad Variables"
  tabbedReplacedWithInfo :: bool
  fired :: "Event list"

text \<open>
  A settings object as it is constructed: the record of the constructor, the
  flag \<^verbatim>\<open>_tabbedReplacedWithInfo\<close> false (its initialiser in the header) and
  nothing fired yet.
\<close>

definition newAuthSessionSettings :: "enumerators \<Rightarrow> 'ad \<Rightarrow> 'ad AuthSessionSettings" where
  "newAuthSessionSettings E a =
     \<lparr> variables = defaultVariables E a, tabbedReplacedWithInfo = False, fired = [] \<rparr>"

definition setTabbedReplacedWithInfo ::
  "bool \<Rightarrow> 'ad AuthSessionSettings \<Rightarrow> 'ad AuthSessionSettings" where
  "setTabbedReplacedWithInfo enabled s =
     (if tabbedReplacedWithInfo s \<noteq> enabled
      then s\<lparr>tabbedReplacedWithInfo := enabled,
             fired := fired s @ [TabbedReplacedWithInfoValue enabled]\<rparr>
      else s)"

function setTabbedSelectorSectionEnabled ::
    "bool \<Rightarrow> 'ad AuthSessionSettings \<Rightarrow> 'ad AuthSessionSettings"
  and setThirdSectionInfoEnabled ::
    "bool \<Rightarrow> 'ad AuthSessionSettings \<Rightarrow> 'ad AuthSessionSettings" where
  "setTabbedSelectorSectionEnabled enabled s =
     (let s1 = s\<lparr>variables := (variables s)\<lparr>tabbedSelectorSectionEnabled := enabled\<rparr>\<rparr>;
          s2 = (if enabled then setThirdSectionInfoEnabled False s1 else s1)
      in setTabbedReplacedWithInfo False s2)"
| "setThirdSectionInfoEnabled enabled s =
     (if thirdSectionInfoEnabled (variables s) \<noteq> enabled then
        (let s1 = s\<lparr>variables := (variables s)\<lparr>thirdSectionInfoEnabled := enabled\<rparr>\<rparr>;
             s2 = (if enabled then setTabbedSelectorSectionEnabled False s1 else s1);
             s3 = setTabbedReplacedWithInfo False s2
         in s3\<lparr>fired := fired s3 @ [ThirdSectionInfoEnabledValue enabled]\<rparr>)
      else s)"
  by pat_completeness auto
termination
  by (relation "measure (\<lambda>x. case x of Inl (enabled, s) \<Rightarrow> (if enabled then 1 else 0)
                                    | Inr (enabled, s) \<Rightarrow> (if enabled then 1 else 0))")
     auto

subsection \<open>Notions used by the statements\<close>

text \<open>The loops applied to a whole list of entries.\<close>

definition setAll :: "QMap \<Rightarrow> QMap \<Rightarrow> QMap" where
  "setAll xs acc = fold (\<lambda>(key, val). QMap_set key val) xs acc"

definition insertAll :: "flat_set \<Rightarrow> flat_set \<Rightarrow> flat_set" where
  "insertAll xs acc = fold flat_set_insert xs acc"

text \<open>Every string of the map has a length that fits Qt's \<^verbatim>\<open>int\<close>.\<close>

definition stringsFit :: "QMap \<Rightarrow> bool" where
  "stringsFit m = (\<forall>(key, val) \<in> set m. length key < 2 ^ 31 \<and> length val < 2 ^ 31)"

text \<open>
  The containers of a record are well formed and small enough for their sizes
  to be written as a \<^verbatim>\<open>qint32\<close>: the map and the set are ordered without
  duplicates (their class invariants) and all lengths fit Qt's \<^verbatim>\<open>int\<close>. The
  first argument is the serializer of the auto-download settings.
\<close>

definition containersFit :: "('ad \<Rightarrow> QByteArray) \<Rightarrow> 'ad Variables \<Rightarrow> bool" where
  "containersFit autoDownload_serialize v =
     (QMap_ok (soundOverrides v) \<and> length (soundOverrides v) < 2 ^ 31
      \<and> stringsFit (soundOverrides v)
      \<and> flat_set_ok (groupStickersSectionHidden v)
      \<and> length (groupStickersSectionHidden v) < 2 ^ 31
      \<and> length (autoDownload_serialize (autoDownload v)) < 2 ^ 31)"

text \<open>Every enumeration-typed field holds one of the enumerators its \<^verbatim>\<open>switch\<close> lists.\<close>

definition enumsLegal :: "enumerators \<Rightarrow> 'ad Variables \<Rightarrow> bool" where
  "enumsLegal E v =
     (selectorTab v \<in> {SelectorTab_Emoji E, SelectorTab_Stickers E, SelectorTab_Gifs E}
      \<and> floatPlayerColumn v \<in> {Column_First E, Column_Second E, Column_Third E}
      \<and> floatPlayerCorner v \<in> {RectPart_TopLeft E, RectPart_TopRight E,
                                 RectPart_BottomLeft E, RectPart_BottomRight E}
      \<and> sendFilesWay v \<in> {SendFilesWay_Album E, SendFilesWay_Photos E, SendFilesWay_Files E}
      \<and> sendSubmitWay v \<in> {InputSubmitSettings_Enter E, InputSubmitSettings_CtrlEnter E}
      \<and> supportSwitch v \<in> {SwitchSettings_None E, SwitchSettings_Next E,
                             SwitchSettings_Previous E})"

definition validVariables :: "enumerators \<Rightarrow> ('ad \<Rightarrow> QByteArray) \<Rightarrow> 'ad Variables \<Rightarrow> bool" where
  "validVariables E autoDownload_serialize v =
     (enumsLegal E v \<and> containersFit autoDownload_serialize v)"

text \<open>
  The twenty field groups of the blob, in the order of the table of the
  specification (section 6); \<^verbatim>\<open>serialize\<close> writes them one after the other.
\<close>

definition fieldGroups :: "('ad \<Rightarrow> QByteArray) \<Rightarrow> 'ad Variables \<Rightarrow> QByteArray list" where
  "fieldGroups autoDownload_serialize v =
     [ write_qint32 (selectorTab v),
       write_bool (lastSeenWarningSeen v),
       write_bool (tabbedSelectorSectionEnabled v),
       write_qint32 (of_nat (length (soundOverrides v)))
         @ write_soundOverrides (soundOverrides v),
       write_qint32 (tabbedSelectorSectionTooltipShown v),
       write_qint32 (floatPlayerColumn v) @ write_qint32 (floatPlayerCorner v),
       write_qint32 (of_nat (length (groupStickersSectionHidden v)))
         @ write_groupStickersSectionHidden (groupStickersSectionHidden v),
       write_bool (thirdSectionInfoEnabled v) @ write_bool (smallDialogsList v),
       write_qint32 (ratioSlot (dialogsWidthRatio v))
         @ write_qint32 (thirdColumnWidth v) @ write_qint32 (thirdSectionExtendedBy v),
       write_qint32 (sendFilesWay v),
       write_qint32 0,
       write_qint32 (sendSubmitWay v) @ write_qint32 (supportSwitch v)
         @ write_bool (supportFixChatsOrder v),
       write_bool (supportTemplatesAutocomplete v),
       write_qint32 (supportChatsTimeSlice v),
       write_bool (includeMutedCounter v) @ write_bool (countUnreadMessages v),
       write_bool (exeLaunchWarning v),
       write_QByteArray (autoDownload_serialize (autoDownload v)),
       write_bool (supportAllSearchResults v),
       write_bool (archiveCollapsed v),
       write_bool (notifyAboutPinned v) ]"

text \<open>The blob of a record cut immediately after its field group \<open>k\<close>.\<close>

definition truncateAfterGroup :: "nat \<Rightarrow> ('ad \<Rightarrow> QByteArray) \<Rightarrow> 'ad Variables \<Rightarrow> QByteArray" where
  "truncateAfterGroup k autoDownload_serialize v =
     concat (take k (fieldGroups autoDownload_serialize v))"

text \<open>
  The ratio a record's ratio comes back as: written by \<^verbatim>\<open>serialize\<close> as a
  clamped count of millionths, read back by \<^verbatim>\<open>constructFromSerialized\<close>.
\<close>

definition storedRatio :: "real \<Rightarrow> real" where
  "storedRatio ratio = decodeRatio (ratioSlot ratio)"

text \<open>
  The scratch values once the blob of \<open>r\<close>, cut after group \<open>k\<close>, has been read
  into a call on the record \<open>v\<close>: the groups up to \<open>k\<close> come from \<open>r\<close>, the
  others keep their initial values.
\<close>

definition localsAfter ::
  "enumerators \<Rightarrow> nat \<Rightarrow> ('ad \<Rightarrow> QByteArray) \<Rightarrow> 'ad Variables \<Rightarrow> 'ad Variables \<Rightarrow> locals" where
  "localsAfter E k autoDownload_serialize r v =
     \<lparr> l_selectorTab = selectorTab r,
       l_lastSeenWarningSeen = of_bool32 (lastSeenWarningSeen r),
       l_tabbedSelectorSectionEnabled =
         (if 3 \<le> k then of_bool32 (tabbedSelectorSectionEnabled r) else 1),
       l_tabbedSelectorSectionTooltipShown =
         (if 5 \<le> k then tabbedSelectorSectionTooltipShown r else 0),
       l_floatPlayerColumn = (if 6 \<le> k then floatPlayerColumn r else Column_Second E),
       l_floatPlayerCorner = (if 6 \<le> k then floatPlayerCorner r else RectPart_TopRight E),
       l_soundOverrides = (if 4 \<le> k then soundOverrides r else []),
       l_groupStickersSectionHidden = (if 7 \<le> k then groupStickersSectionHidden r else []),
       l_thirdSectionInfoEnabled =
         (if 8 \<le> k then of_bool32 (thirdSectionInfoEnabled r) else 0),
       l_smallDialogsList = (if 8 \<le> k then of_bool32 (smallDialogsList r) else 0),
       l_dialogsWidthRatio =
         (if 9 \<le> k then storedRatio (dialogsWidthRatio r) else dialogsWidthRatio v),
       l_thirdColumnWidth = (if 9 \<le> k then thirdColumnWidth r else thirdColumnWidth v),
       l_thirdSectionExtendedBy =
         (if 9 \<le> k then thirdSectionExtendedBy r else thirdSectionExtendedBy v),
       l_sendFilesWay = (if 10 \<le> k then sendFilesWay r else sendFilesWay v),
       l_legacyCallsPeerToPeer = 0,
       l_sendSubmitWay = (if 12 \<le> k then sendSubmitWay r else sendSubmitWay v),
       l_supportSwitch = (if 12 \<le> k then supportSwitch r else supportSwitch v),
       l_supportFixChatsOrder =
         of_bool32 (if 12 \<le> k then supportFixChatsOrder r else supportFixChatsOrder v),
       l_supportTemplatesAutocomplete =
         of_bool32 (if 13 \<le> k then supportTemplatesAutocomplete r
                    else supportTemplatesAutocomplete v),
       l_supportChatsTimeSlice =
         (if 14 \<le> k then supportChatsTimeSlice r else supportChatsTimeSlice v),
       l_includeMutedCounter =
         of_bool32 (if 15 \<le> k then includeMutedCounter r else includeMutedCounter v),
       l_countUnreadMessages =
         of_bool32 (if 15 \<le> k then countUnreadMessages r else countUnreadMessages v),
       l_exeLaunchWarning =
         of_bool32 (if 16 \<le> k then exeLaunchWarning r else exeLaunchWarning v),
       l_autoDownload = (if 17 \<le> k then autoDownload_serialize (autoDownload r) else []),
       l_supportAllSearchResults =
         of_bool32 (if 18 \<le> k then supportAllSearchResults r else supportAllSearchResults v),
       l_archiveCollapsed =
         of_bool32 (if 19 \<le> k then archiveCollapsed r else archiveCollapsed v),
       l_notifyAboutPinned =
         of_bool32 (if 20 \<le> k then notifyAboutPinned r else notifyAboutPinned v) \<rparr>"

text \<open>
  The delegated decoder, started from the auto-download settings of \<open>v\<close>,
  accepts what the delegated encoder wrote for the settings of \<open>r\<close> and
  leaves the settings of \<open>r\<close>, and the encoder wrote something.
\<close>

definition codecAccepts ::
  "('ad \<Rightarrow> QByteArray \<Rightarrow> bool \<times> 'ad) \<Rightarrow> ('ad \<Rightarrow> QByteArray) \<Rightarrow> 'ad Variables \<Rightarrow> 'ad Variables
     \<Rightarrow> bool" where
  "codecAccepts setFromSerialized autoDownload_serialize v r =
     (autoDownload_serialize (autoDownload r) \<noteq> []
      \<and> setFromSerialized (autoDownload v) (autoDownload_serialize (autoDownload r))
          = (True, autoDownload r))"

text \<open>
  The record a successful call on \<open>v\<close> leaves when it is given the blob of a
  valid record \<open>r\<close> cut after group \<open>k\<close>: a field of a group up to \<open>k\<close> has
  the value of \<open>r\<close> (the ratio as it is stored, the tabbed-selector flag subject
  to the rule of lines 260 to 262), a field of a later group has the initial
  value of its scratch variable, which is a constant of the source for the
  groups 3 to 8 and the value of \<open>v\<close> for the groups from 9 on. The legacy
  flag is false: \<^verbatim>\<open>serialize\<close> writes 0 for the sentinel, and the scratch
  variable starts at 0.
\<close>

definition expectedPrefix ::
  "enumerators \<Rightarrow> nat \<Rightarrow> 'ad Variables \<Rightarrow> 'ad Variables \<Rightarrow> 'ad Variables" where
  "expectedPrefix E k r v =
     \<lparr> selectorTab = selectorTab r,
       lastSeenWarningSeen = lastSeenWarningSeen r,
       tabbedSelectorSectionEnabled =
         ((if 3 \<le> k then tabbedSelectorSectionEnabled r else True)
          \<and> \<not> (8 \<le> k \<and> thirdSectionInfoEnabled r)),
       soundOverrides = (if 4 \<le> k then soundOverrides r else []),
       tabbedSelectorSectionTooltipShown =
         (if 5 \<le> k then tabbedSelectorSectionTooltipShown r else 0),
       floatPlayerColumn = (if 6 \<le> k then floatPlayerColumn r else Column_Second E),
       floatPlayerCorner = (if 6 \<le> k then floatPlayerCorner r else RectPart_TopRight E),
       groupStickersSectionHidden = (if 7 \<le> k then groupStickersSectionHidden r else []),
       thirdSectionInfoEnabled = (8 \<le> k \<and> thirdSectionInfoEnabled r),
       smallDialogsList = (8 \<le> k \<and> smallDialogsList r),
       dialogsWidthRatio =
         (if 9 \<le> k then storedRatio (dialogsWidthRatio r) else dialogsWidthRatio v),
       thirdColumnWidth = (if 9 \<le> k then thirdColumnWidth r else thirdColumnWidth v),
       thirdSectionExtendedBy =
         (if 9 \<le> k then thirdSectionExtendedBy r else thirdSectionExtendedBy v),
       sendFilesWay = (if 10 \<le> k then sendFilesWay r else sendFilesWay v),
       hadLegacyCallsPeerToPeerNobody = False,
       sendSubmitWay = (if 12 \<le> k then sendSubmitWay r else sendSubmitWay v),
       supportSwitch = (if 12 \<le> k then supportSwitch r else supportSwitch v),
       supportFixChatsOrder =
         (if 12 \<le> k then supportFixChatsOrder r else supportFixChatsOrder v),
       supportTemplatesAutocomplete =
         (if 13 \<le> k then supportTemplatesAutocomplete r else supportTemplatesAutocomplete v),
       supportChatsTimeSlice =
         (if 14 \<le> k then supportChatsTimeSlice r else supportChatsTimeSlice v),
       includeMutedCounter =
         (if 15 \<le> k then includeMutedCounter r else includeMutedCounter v),
       countUnreadMessages =
         (if 15 \<le> k then countUnreadMessages r else countUnreadMessages v),
       exeLaunchWarning = (if 16 \<le> k then exeLaunchWarning r else exeLaunchWarning v),
       autoDownload = (if 17 \<le> k then autoDownload r else autoDownload v),
       supportAllSearchResults =
         (if 18 \<le> k then supportAllSearchResults r else supportAllSearchResults v),
       archiveCollapsed = (if 19 \<le> k then archiveCollapsed r else archiveCollapsed v),
       notifyAboutPinned = (if 20 \<le> k then notifyAboutPinned r else notifyAboutPinned v) \<rparr>"

text \<open>The scratch selector tab replaced, the rest of the reading state kept.\<close>

definition withTab :: "qint32 \<Rightarrow> rstate \<Rightarrow> rstate" where
  "withTab t st = (fst st, (snd st)\<lparr>l_selectorTab := t\<rparr>)"

text \<open>
  Calls of the setters in sequence, and the state in which the two panels are
  not both enabled.
\<close>

datatype SetterCall =
    SetTabbedSelectorSectionEnabled bool
  | SetThirdSectionInfoEnabled bool
  | SetTabbedReplacedWithInfo bool

fun applyCall :: "SetterCall \<Rightarrow> 'ad AuthSessionSettings \<Rightarrow> 'ad AuthSessionSettings" where
  "applyCall (SetTabbedSelectorSectionEnabled b) s = setTabbedSelectorSectionEnabled b s"
| "applyCall (SetThirdSectionInfoEnabled b) s = setThirdSectionInfoEnabled b s"
| "applyCall (SetTabbedReplacedWithInfo b) s = setTabbedReplacedWithInfo b s"

definition applyCalls :: "SetterCall list \<Rightarrow> 'ad AuthSessionSettings \<Rightarrow> 'ad AuthSessionSettings" where
  "applyCalls calls s = fold applyCall calls s"

definition panelsExclusive :: "'ad AuthSessionSettings \<Rightarrow> bool" where
  "panelsExclusive s =
     (\<not> (tabbedSelectorSectionEnabled (variables s)
          \<and> thirdSectionInfoEnabled (variables s)))"

text \<open>
  The operations of the source file that write the two panel flags: the
  setters and \<^verbatim>\<open>constructFromSerialized\<close>, which works on the record of the
  settings object. A sequence of operations is applied from left to right; the
  result is \<open>None\<close> when a decode does not return.
\<close>

datatype Operation =
    CallSetter SetterCall
  | CallConstructFromSerialized QByteArray

fun applyOperation ::
  "enumerators \<Rightarrow> ('ad \<Rightarrow> QByteArray \<Rightarrow> bool \<times> 'ad) \<Rightarrow> Operation
     \<Rightarrow> 'ad AuthSessionSettings \<Rightarrow> 'ad AuthSessionSettings option" where
  "applyOperation E setFromSerialized (CallSetter c) s = Some (applyCall c s)"
| "applyOperation E setFromSerialized (CallConstructFromSerialized serialized) s =
     (case constructFromSerialized E setFromSerialized (variables s) serialized of
        None \<Rightarrow> None
      | Some (outcome, lg, v) \<Rightarrow> Some (s\<lparr>variables := v\<rparr>))"

fun applyOperations ::
  "enumerators \<Rightarrow> ('ad \<Rightarrow> QByteArray \<Rightarrow> bool \<times> 'ad) \<Rightarrow> Operation list
     \<Rightarrow> 'ad AuthSessionSettings \<Rightarrow> 'ad AuthSessionSettings option" where
  "applyOperations E setFromSerialized [] s = Some s"
| "applyOperations E setFromSerialized (operation # operations) s =
     (case applyOperation E setFromSerialized operation s of
        None \<Rightarrow> None
      | Some s' \<Rightarrow> applyOperations E setFromSerialized operations s')"
subsection \<open>Concrete instances\<close>

text \<open>
  An assignment of integers to the enumerators, a small delegated codec (a
  version byte 1, then the payload) and two records, for the statements about
  concrete inputs. The ratio of the first record, 341/1024, is a double.
\<close>

definition sampleEnumerators :: enumerators where
  "sampleEnumerators =
     \<lparr> SelectorTab_Emoji = 0, SelectorTab_Stickers = 1, SelectorTab_Gifs = 2,
       Column_First = 0, Column_Second = 1, Column_Third = 2,
       RectPart_TopLeft = 1, RectPart_TopRight = 4,
       RectPart_BottomLeft = 64, RectPart_BottomRight = 256,
       SendFilesWay_Album = 0, SendFilesWay_Photos = 1, SendFilesWay_Files = 2,
       InputSubmitSettings_Enter = 0, InputSubmitSettings_CtrlEnter = 1,
       SwitchSettings_None = 0, SwitchSettings_Next = 1, SwitchSettings_Previous = 2 \<rparr>"

definition sample_serialize :: "QByteArray \<Rightarrow> QByteArray" where
  "sample_serialize a = 1 # a"

definition sample_setFromSerialized :: "QByteArray \<Rightarrow> QByteArray \<Rightarrow> bool \<times> QByteArray" where
  "sample_setFromSerialized current blob =
     (case blob of
        [] \<Rightarrow> (False, current)
      | b # bs \<Rightarrow> if b = 1 then (True, bs) else (False, current))"

text \<open>A delegated serializer whose output the delegated decoder refuses.\<close>

definition sample_serialize_v2 :: "QByteArray \<Rightarrow> QByteArray" where
  "sample_serialize_v2 a = 2 # a"

definition sampleSettings :: "QByteArray Variables" where
  "sampleSettings =
     \<lparr> selectorTab = 1,
       lastSeenWarningSeen = True,
       tabbedSelectorSectionEnabled = False,
       soundOverrides = [([0x61], [0x62, 0x63]), ([0x61, 0x62], [])],
       tabbedSelectorSectionTooltipShown = 3,
       floatPlayerColumn = 0,
       floatPlayerCorner = 64,
       groupStickersSectionHidden = [5, 9],
       thirdSectionInfoEnabled = True,
       smallDialogsList = False,
       dialogsWidthRatio = 341 / 1024,
       thirdColumnWidth = 300,
       thirdSectionExtendedBy = - 1,
       sendFilesWay = 2,
       hadLegacyCallsPeerToPeerNobody = False,
       sendSubmitWay = 1,
       supportSwitch = 0,
       supportFixChatsOrder = False,
       supportTemplatesAutocomplete = True,
       supportChatsTimeSlice = 3600,
       includeMutedCounter = False,
       countUnreadMessages = True,
       exeLaunchWarning = False,
       autoDownload = [7, 7],
       supportAllSearchResults = True,
       archiveCollapsed = True,
       notifyAboutPinned = False \<rparr>"

text \<open>A freshly constructed record and a freshly constructed settings object.\<close>

definition currentSettings :: "QByteArray Variables" where
  "currentSettings = defaultVariables sampleEnumerators []"

definition infoPanelOnly :: "QByteArray AuthSessionSettings" where
  "infoPanelOnly = newAuthSessionSettings sampleEnumerators []"

section \<open>Properties\<close>

subsection \<open>Bytes and the stream\<close>

lemma length_write_qint32 [simp]: "length (write_qint32 x) = 4"
  by (simp add: write_qint32_def)
lemma length_write_quint64 [simp]: "length (write_quint64 x) = 8"
  by (simp add: write_quint64_def)
lemma length_write_quint16 [simp]: "length (write_quint16 x) = 2"
  by (simp add: write_quint16_def)
lemma length_write_units [simp]: "length (write_units str) = 2 * length str"
  by (induction str) simp_all

lemma qFromBigEndian16_write: "qFromBigEndian16 (write_quint16 c) = c"
proof (rule bit_word_eqI)
  fix n assume "n < LENGTH(16)"
  then consider "n < 8" | "8 \<le> n \<and> n < 16"
    by fastforce
  then show "bit (qFromBigEndian16 (write_quint16 c)) n = bit c n"
    by cases (auto simp add: qFromBigEndian16_def write_quint16_def bit_simps)
qed

lemma qFromBigEndian32_write: "qFromBigEndian32 (write_qint32 i) = i"
proof (rule bit_word_eqI)
  fix n assume "n < LENGTH(32)"
  then consider "n < 8" | "8 \<le> n \<and> n < 16" | "16 \<le> n \<and> n < 24" | "24 \<le> n \<and> n < 32"
    by fastforce
  then show "bit (qFromBigEndian32 (write_qint32 i)) n = bit i n"
    by cases (auto simp add: qFromBigEndian32_def write_qint32_def bit_simps)
qed

lemma qFromBigEndian64_write: "qFromBigEndian64 (write_quint64 i) = i"
proof (rule bit_word_eqI)
  fix n assume "n < LENGTH(64)"
  then consider "n < 8" | "8 \<le> n \<and> n < 16" | "16 \<le> n \<and> n < 24" | "24 \<le> n \<and> n < 32"
    | "32 \<le> n \<and> n < 40" | "40 \<le> n \<and> n < 48" | "48 \<le> n \<and> n < 56" | "56 \<le> n \<and> n < 64"
    by fastforce
  then show "bit (qFromBigEndian64 (write_quint64 i)) n = bit i n"
    by cases (auto simp add: qFromBigEndian64_def write_quint64_def bit_simps)
qed

lemma read_units_write [simp]: "read_units (write_units str) = str"
proof (induction str)
  case Nil
  show ?case by simp
next
  case (Cons c cs)
  have "write_quint16 c = [ucast (drop_bit 8 c), ucast c]" by (simp add: write_quint16_def)
  then have "read_units (write_units (c # cs))
      = qFromBigEndian16 (write_quint16 c) # read_units (write_units cs)" by simp
  then show ?case by (simp add: qFromBigEndian16_write Cons.IH)
qed

lemma readBlock_append:
  "length bs = n \<Longrightarrow>
   readBlock n \<lparr>device = bs @ rest, q_status = st\<rparr> = (Some bs, \<lparr>device = rest, q_status = st\<rparr>)"
  by (simp add: readBlock_def)

lemma read_qint32_write [simp]:
  "read_qint32 \<lparr>device = write_qint32 x @ rest, q_status = st\<rparr>
     = (x, \<lparr>device = rest, q_status = st\<rparr>)"
  by (simp add: read_qint32_def readBlock_append qFromBigEndian32_write)

lemma read_quint64_write [simp]:
  "read_quint64 \<lparr>device = write_quint64 x @ rest, q_status = st\<rparr>
     = (x, \<lparr>device = rest, q_status = st\<rparr>)"
  by (simp add: read_quint64_def readBlock_append qFromBigEndian64_write)

lemma write_qint32_not_Nil [simp]: "write_qint32 x \<noteq> []"
  by (simp add: write_qint32_def)

lemma atEnd_write [simp]: "\<not> atEnd \<lparr>device = write_qint32 x @ rest, q_status = st\<rparr>"
  by (simp add: atEnd_def)

lemma atEnd_Nil [simp]: "atEnd \<lparr>device = [], q_status = st\<rparr>"
  by (simp add: atEnd_def)

lemma read_QString_write [simp]:
  assumes "length str < 2 ^ 31"
  shows "read_QString \<lparr>device = write_QString str @ rest, q_status = st\<rparr>
           = (str, \<lparr>device = rest, q_status = st\<rparr>)"
proof (cases "str = []")
  case True
  then show ?thesis by (simp add: read_QString_def write_QString_def)
next
  case False
  let ?b = "of_nat (2 * length str) :: 32 word"
  have lt: "2 * length str < 2 ^ 32" using assms by simp
  have u: "unat ?b = 2 * length str"
    using lt by (simp add: unat_of_nat del: of_nat_mult)
  have pos: "0 < ?b" using u False by (simp add: word_less_nat_alt del: of_nat_mult)
  have nff: "?b \<noteq> 0xffffffff"
  proof
    assume "?b = 0xffffffff"
    then have "unat ?b = unat (0xffffffff :: 32 word)" by simp
    then show False using u by simp presburger
  qed
  have "even ?b" by simp
  then have "?b mod 2 = 0" by (simp only: even_iff_mod_2_eq_zero)
  then have ev: "?b AND 1 = 0"
    by (simp only: and_one_eq)
  show ?thesis
    using pos nff ev u
    by (simp add: read_QString_def write_QString_def readBlock_append del: of_nat_mult)
qed

lemma read_QByteArray_write [simp]:
  assumes "length ba < 2 ^ 31"
  shows "read_QByteArray \<lparr>device = write_QByteArray ba @ rest, q_status = st\<rparr>
           = (ba, \<lparr>device = rest, q_status = st\<rparr>)"
proof -
  let ?b = "of_nat (length ba) :: 32 word"
  have lt: "length ba < 2 ^ 32" using assms by simp
  have u: "unat ?b = length ba"
    using lt by (simp add: unat_of_nat)
  have nff: "?b \<noteq> 0xffffffff"
  proof
    assume "?b = 0xffffffff"
    then have "unat ?b = unat (0xffffffff :: 32 word)" by simp
    then show False using u assms by simp
  qed
  show ?thesis
    using nff u
    by (simp add: read_QByteArray_def write_QByteArray_def readBlock_append)
qed

subsection \<open>Containers and the counted loops\<close>

lemma QMap_set_last:
  "\<forall>k \<in> set (map fst m). k < key \<Longrightarrow> QMap_set key val m = m @ [(key, val)]"
  by (induction m) auto

lemma setAll_sorted:
  "sorted_wrt (<) (map fst (acc @ xs)) \<Longrightarrow> setAll xs acc = acc @ xs"
proof (induction xs arbitrary: acc)
  case Nil
  show ?case by (simp add: setAll_def)
next
  case (Cons x xs)
  obtain key val where x: "x = (key, val)" by (cases x)
  have "\<forall>k \<in> set (map fst acc). k < key"
    using Cons.prems x by (auto simp add: sorted_wrt_append)
  then have s: "QMap_set key val acc = acc @ [(key, val)]" by (rule QMap_set_last)
  have "sorted_wrt (<) (map fst ((acc @ [x]) @ xs))" using Cons.prems by simp
  then have "setAll xs (acc @ [x]) = (acc @ [x]) @ xs" by (rule Cons.IH)
  then show ?case using s x by (simp add: setAll_def)
qed

lemma setAll_QMap_ok: "QMap_ok m \<Longrightarrow> setAll m [] = m"
  using setAll_sorted [of "[]" m] by (simp add: QMap_ok_def)

lemma flat_set_insert_last:
  "\<forall>y \<in> set ys. y < x \<Longrightarrow> flat_set_insert x ys = ys @ [x]"
  by (induction ys) auto

lemma insertAll_sorted:
  "sorted_wrt (<) (acc @ xs) \<Longrightarrow> insertAll xs acc = acc @ xs"
proof (induction xs arbitrary: acc)
  case Nil
  show ?case by (simp add: insertAll_def)
next
  case (Cons x xs)
  have "\<forall>y \<in> set acc. y < x"
    using Cons.prems by (auto simp add: sorted_wrt_append)
  then have s: "flat_set_insert x acc = acc @ [x]" by (rule flat_set_insert_last)
  have "sorted_wrt (<) ((acc @ [x]) @ xs)" using Cons.prems by simp
  then have "insertAll xs (acc @ [x]) = (acc @ [x]) @ xs" by (rule Cons.IH)
  then show ?case using s by (simp add: insertAll_def)
qed

lemma insertAll_flat_set_ok: "flat_set_ok xs \<Longrightarrow> insertAll xs [] = xs"
  using insertAll_sorted [of "[]" xs] by (simp add: flat_set_ok_def)

lemma count_ne: "0 < n \<Longrightarrow> n < 2 ^ 32 \<Longrightarrow> (i :: qint32) \<noteq> i + of_nat n"
proof
  assume a: "0 < n" "n < 2 ^ 32" and "i = i + of_nat n"
  then have "(of_nat n :: qint32) = 0" by simp
  moreover have "(of_nat n :: qint32) \<noteq> 0" using a by (intro of_nat_neq_0) simp_all
  ultimately show False by simp
qed

lemma soundOverridesLoop_written:
  "length xs < 2 ^ 32 \<Longrightarrow> stringsFit xs \<Longrightarrow>
   soundOverridesLoop i (i + of_nat (length xs))
       \<lparr>device = write_soundOverrides xs @ rest, q_status = st\<rparr> acc
     = Some (\<lparr>device = rest, q_status = st\<rparr>, setAll xs acc)"
proof (induction xs arbitrary: i acc)
  case Nil
  show ?case by (simp add: soundOverridesLoop.simps setAll_def)
next
  case (Cons x xs)
  obtain key val where x: "x = (key, val)" by (cases x)
  have fit: "length key < 2 ^ 31" "length val < 2 ^ 31" "stringsFit xs"
    using Cons.prems(2) x by (auto simp add: stringsFit_def)
  have ne: "i \<noteq> i + of_nat (length (x # xs))"
    using Cons.prems(1) by (intro count_ne) simp_all
  have cnt: "i + of_nat (length (x # xs)) = (i + 1) + of_nat (length xs)" by simp
  have len: "length xs < 2 ^ 32" using Cons.prems(1) by simp
  have "soundOverridesLoop i (i + of_nat (length (x # xs)))
          \<lparr>device = write_soundOverrides (x # xs) @ rest, q_status = st\<rparr> acc
        = soundOverridesLoop (i + 1) ((i + 1) + of_nat (length xs))
          \<lparr>device = write_soundOverrides xs @ rest, q_status = st\<rparr> (QMap_set key val acc)"
    apply (subst soundOverridesLoop.simps)
    apply (simp only: ne cnt [symmetric] if_True simp_thms)
    using fit(1,2) apply (simp add: x del: of_nat_Suc)
    done
  also have "\<dots> = Some (\<lparr>device = rest, q_status = st\<rparr>, setAll xs (QMap_set key val acc))"
    using len fit(3) by (rule Cons.IH)
  finally show ?case by (simp add: setAll_def x)
qed

lemma groupStickersLoop_written:
  "length xs < 2 ^ 32 \<Longrightarrow>
   groupStickersLoop i (i + of_nat (length xs))
       \<lparr>device = write_groupStickersSectionHidden xs @ rest, q_status = st\<rparr> acc
     = Some (\<lparr>device = rest, q_status = st\<rparr>, insertAll xs acc)"
proof (induction xs arbitrary: i acc)
  case Nil
  show ?case by (simp add: groupStickersLoop.simps insertAll_def)
next
  case (Cons x xs)
  have ne: "i \<noteq> i + of_nat (length (x # xs))"
    using Cons.prems(1) by (intro count_ne) simp_all
  have cnt: "i + of_nat (length (x # xs)) = (i + 1) + of_nat (length xs)" by simp
  have len: "length xs < 2 ^ 32" using Cons.prems(1) by simp
  have "groupStickersLoop i (i + of_nat (length (x # xs)))
          \<lparr>device = write_groupStickersSectionHidden (x # xs) @ rest, q_status = st\<rparr> acc
        = groupStickersLoop (i + 1) ((i + 1) + of_nat (length xs))
          \<lparr>device = write_groupStickersSectionHidden xs @ rest, q_status = st\<rparr> (flat_set_insert x acc)"
    apply (subst groupStickersLoop.simps)
    apply (simp only: ne cnt [symmetric] if_True simp_thms)
    apply (simp del: of_nat_Suc)
    done
  also have "\<dots> = Some (\<lparr>device = rest, q_status = st\<rparr>, insertAll xs (flat_set_insert x acc))"
    using len by (rule Cons.IH)
  finally show ?case by (simp add: insertAll_def)
qed

subsection \<open>The loops return\<close>

lemma unat_step: "(i::qint32) \<noteq> count \<Longrightarrow> unat (count - (i + 1)) = unat (count - i) - 1"
proof -
  assume "i \<noteq> count"
  then have "count - i \<noteq> 0" by simp
  then have "unat ((count - i) - 1) = unat (count - i) - 1" by (rule unat_minus_one)
  moreover have "count - (i + 1) = (count - i) - 1" by (simp add: diff_diff_eq)
  ultimately show ?thesis by (simp only:)
qed

lemma soundOverridesLoop_returns:
  "\<exists>r. soundOverridesLoop i count stream m = Some r"
proof (induction "unat (count - i)" arbitrary: i stream m)
  case 0
  then have "i = count" by (simp add: unat_eq_0)
  then show ?case by (simp add: soundOverridesLoop.simps)
next
  case (Suc n)
  then have ne: "i \<noteq> count" by auto
  obtain key s1 where k: "read_QString stream = (key, s1)" by (cases "read_QString stream")
  obtain val s2 where v: "read_QString s1 = (val, s2)" by (cases "read_QString s1")
  have "n = unat (count - (i + 1))" using Suc.hyps(2) unat_step [OF ne] by simp
  from Suc.hyps(1) [OF this]
  obtain r where "soundOverridesLoop (i + 1) count s2 (QMap_set key val m) = Some r" by blast
  then show ?case
    by (subst soundOverridesLoop.simps) (simp add: ne k v)
qed

lemma groupStickersLoop_returns:
  "\<exists>r. groupStickersLoop i count stream h = Some r"
proof (induction "unat (count - i)" arbitrary: i stream h)
  case 0
  then have "i = count" by (simp add: unat_eq_0)
  then show ?case by (simp add: groupStickersLoop.simps)
next
  case (Suc n)
  then have ne: "i \<noteq> count" by auto
  obtain p s1 where k: "read_quint64 stream = (p, s1)" by (cases "read_quint64 stream")
  have "n = unat (count - (i + 1))" using Suc.hyps(2) unat_step [OF ne] by simp
  from Suc.hyps(1) [OF this]
  obtain r where "groupStickersLoop (i + 1) count s1 (flat_set_insert p h) = Some r" by blast
  then show ?case
    by (subst groupStickersLoop.simps) (simp add: ne k)
qed

lemma readGroup4_returns: "\<exists>r. readGroup4 st = Some r"
proof (cases st)
  case (Pair stream d)
  obtain c s1 where c: "read_qint32 stream = (c, s1)" by (cases "read_qint32 stream")
  obtain r where "soundOverridesLoop 0 c s1 (l_soundOverrides d) = Some r"
    using soundOverridesLoop_returns by blast
  then show ?thesis using Pair c by (cases r) simp
qed

lemma readGroup7_returns: "\<exists>r. readGroup7 st = Some r"
proof (cases st)
  case (Pair stream d)
  obtain c s1 where c: "read_qint32 stream = (c, s1)" by (cases "read_qint32 stream")
  obtain r where "groupStickersLoop 0 c s1 (l_groupStickersSectionHidden d) = Some r"
    using groupStickersLoop_returns by blast
  then show ?thesis using Pair c by (cases r) simp
qed

lemma readFields_returns: "\<exists>st. readFields E v serialized = Some st"
proof -
  obtain st4 where a: "readGroup4 (readGroup3 (readGroup2 (openStream serialized, initLocals E v))) = Some st4"
    using readGroup4_returns by blast
  obtain st7 where b: "readGroup7 (readGroup6 (readGroup5 st4)) = Some st7"
    using readGroup7_returns by blast
  have "readFields E v serialized = Some (readTail st7)"
    by (simp only: readFields_def a b bind.bind_lunit)
  then show ?thesis by blast
qed

subsection \<open>Reading what serialize wrote\<close>

lemmas read_qint32_write_end [simp] = read_qint32_write [where rest = "[]", simplified]
lemmas atEnd_write_end [simp] = atEnd_write [where rest = "[]", simplified]

lemma atEnd_write_QByteArray [simp]:
  "\<not> atEnd \<lparr>device = write_QByteArray ba @ rest, q_status = st\<rparr>"
  by (simp add: write_QByteArray_def)

lemmas atEnd_write_QByteArray_end [simp] = atEnd_write_QByteArray [where rest = "[]", simplified]
lemmas read_QByteArray_write_end [simp] = read_QByteArray_write [where rest = "[]", simplified]

lemma soundOverridesLoop_group:
  assumes "QMap_ok m" "length m < 2 ^ 31" "stringsFit m"
  shows "soundOverridesLoop 0 (of_nat (length m))
           \<lparr>device = write_soundOverrides m @ rest, q_status = st\<rparr> []
         = Some (\<lparr>device = rest, q_status = st\<rparr>, m)"
proof -
  have "length m < 2 ^ 32" using assms(2) by simp
  then show ?thesis
    using soundOverridesLoop_written [of m 0 rest st "[]"] assms(1,3)
    by (simp add: setAll_QMap_ok)
qed

lemma groupStickersLoop_group:
  assumes "flat_set_ok xs" "length xs < 2 ^ 31"
  shows "groupStickersLoop 0 (of_nat (length xs))
           \<lparr>device = write_groupStickersSectionHidden xs @ rest, q_status = st\<rparr> []
         = Some (\<lparr>device = rest, q_status = st\<rparr>, xs)"
proof -
  have "length xs < 2 ^ 32" using assms(2) by simp
  then show ?thesis
    using groupStickersLoop_written [of xs 0 rest st "[]"] assms(1)
    by (simp add: insertAll_flat_set_ok)
qed

lemmas soundOverridesLoop_group_end = soundOverridesLoop_group [where rest = "[]", simplified]
lemmas groupStickersLoop_group_end = groupStickersLoop_group [where rest = "[]", simplified]

lemmas eval_simps =
  readFields_def openStream_def initLocals_def readTail_def truncateAfterGroup_def
  fieldGroups_def write_bool_def localsAfter_def of_bool32_def storedRatio_def
  soundOverridesLoop_group groupStickersLoop_group
  soundOverridesLoop_group_end groupStickersLoop_group_end

lemma readFields_truncated:
  assumes "containersFit ser r" "2 \<le> k" "k \<le> 20"
  shows "readFields E v (truncateAfterGroup k ser r)
           = Some (\<lparr>device = [], q_status = Ok\<rparr>, localsAfter E k ser r v)"
proof -
  from assms(2,3) have "k = 2 \<or> k = 3 \<or> k = 4 \<or> k = 5 \<or> k = 6 \<or> k = 7 \<or> k = 8 \<or> k = 9
      \<or> k = 10 \<or> k = 11 \<or> k = 12 \<or> k = 13 \<or> k = 14 \<or> k = 15 \<or> k = 16 \<or> k = 17
      \<or> k = 18 \<or> k = 19 \<or> k = 20"
    by arith
  then show ?thesis
    using assms(1) unfolding containersFit_def
    by (elim disjE) (simp_all add: eval_simps)
qed

lemma truncateAfterGroup_not_Nil: "0 < k \<Longrightarrow> truncateAfterGroup k ser r \<noteq> []"
  by (cases k) (simp_all add: truncateAfterGroup_def fieldGroups_def)

lemma serialize_fieldGroups: "serialize ser r = concat (fieldGroups ser r)"
  by (simp add: serialize_def fieldGroups_def)

lemma serialize_truncate: "serialize ser r = truncateAfterGroup 20 ser r"
  by (simp add: serialize_def fieldGroups_def truncateAfterGroup_def)

lemma truncateAfterGroup_prefix:
  "truncateAfterGroup k ser r = take (length (truncateAfterGroup k ser r)) (serialize ser r)"
proof -
  have "serialize ser r
      = concat (take k (fieldGroups ser r)) @ concat (drop k (fieldGroups ser r))"
    by (simp only: serialize_fieldGroups concat_append [symmetric] append_take_drop_id)
  then show ?thesis by (simp add: truncateAfterGroup_def)
qed

lemma commit_localsAfter:
  assumes "enumsLegal E r"
  shows "commit E (localsAfter E k ser r v)
           (v\<lparr>autoDownload := (if 17 \<le> k then autoDownload r else autoDownload v)\<rparr>)
         = expectedPrefix E k r v"
  using assms
  by (simp add: commit_def localsAfter_def expectedPrefix_def enumsLegal_def Let_def
      of_bool32_def kLegacyCallsPeerToPeerNobody_def)

subsection \<open>The decode of a blob cut at a group boundary\<close>

lemma decode_truncated:
  assumes "containersFit ser r" "2 \<le> k" "k \<le> 20"
  shows "constructFromSerialized E setFrom v (truncateAfterGroup k ser r)
     = (if 17 \<le> k \<and> ser (autoDownload r) \<noteq> [] then
          (case setFrom (autoDownload v) (ser (autoDownload r)) of
             (accepted, a) \<Rightarrow>
               if \<not> accepted then Some (AutoDownloadRejected, [], v\<lparr>autoDownload := a\<rparr>)
               else Some (Decoded, [],
                          commit E (localsAfter E k ser r v) (v\<lparr>autoDownload := a\<rparr>)))
        else Some (Decoded, [], commit E (localsAfter E k ser r v) v))"
proof -
  have ne: "truncateAfterGroup k ser r \<noteq> []"
    using assms(2) by (intro truncateAfterGroup_not_Nil) simp
  have sub: "l_autoDownload (localsAfter E k ser r v)
               = (if 17 \<le> k then ser (autoDownload r) else [])"
    by (simp add: localsAfter_def)
  show ?thesis
    by (simp add: constructFromSerialized_def ne readFields_truncated [OF assms] sub)
qed

lemma decode_truncated_valid:
  assumes "validVariables E ser r" "2 \<le> k" "k \<le> 20"
    and "17 \<le> k \<Longrightarrow> codecAccepts setFrom ser v r"
  shows "constructFromSerialized E setFrom v (truncateAfterGroup k ser r)
           = Some (Decoded, [], expectedPrefix E k r v)"
proof -
  have fit: "containersFit ser r" and legal: "enumsLegal E r"
    using assms(1) by (simp_all add: validVariables_def)
  show ?thesis
  proof (cases "17 \<le> k")
    case True
    then have "codecAccepts setFrom ser v r" by (rule assms(4))
    then show ?thesis
      using True commit_localsAfter [OF legal, of k ser v]
      by (simp add: decode_truncated [OF fit assms(2,3)] codecAccepts_def)
  next
    case False
    then show ?thesis
      using commit_localsAfter [OF legal, of k ser v]
      by (simp add: decode_truncated [OF fit assms(2,3)])
  qed
qed

lemma decode_first_group_only:
  "constructFromSerialized E setFrom v (truncateAfterGroup 1 ser r)
     = Some (BadData, [badDataMessage], v)"
  by (simp add: constructFromSerialized_def eval_simps read_qint32_def readBlock_def
      setStatus_def)

subsection \<open>The early returns\<close>

lemma read_qint32_short:
  "length bs < 4 \<Longrightarrow>
   read_qint32 \<lparr>device = bs, q_status = st\<rparr>
     = (0, \<lparr>device = [], q_status = (if st = Ok then ReadPastEnd else st)\<rparr>)"
  by (simp add: read_qint32_def readBlock_def setStatus_def)

lemma read_QByteArray_short:
  "length bs < 4 \<Longrightarrow>
   read_QByteArray \<lparr>device = bs, q_status = st\<rparr>
     = ([], \<lparr>device = [], q_status = (if st = Ok then ReadPastEnd else st)\<rparr>)"
  by (simp add: read_QByteArray_def read_qint32_short readBlock_def)

lemma atEnd_device: "atEnd \<lparr>device = bs, q_status = st\<rparr> = (bs = [])"
  by (simp add: atEnd_def)

lemma readFields_cut_inside:
  assumes "containersFit ser r" "2 \<le> k" "k < 20" "extra \<noteq> []" "length extra < 4"
  shows "\<exists>d. readFields E v (truncateAfterGroup k ser r @ extra)
           = Some (\<lparr>device = [], q_status = ReadPastEnd\<rparr>, d)"
proof -
  from assms(2,3) have "k = 2 \<or> k = 3 \<or> k = 4 \<or> k = 5 \<or> k = 6 \<or> k = 7 \<or> k = 8 \<or> k = 9
      \<or> k = 10 \<or> k = 11 \<or> k = 12 \<or> k = 13 \<or> k = 14 \<or> k = 15 \<or> k = 16 \<or> k = 17
      \<or> k = 18 \<or> k = 19"
    by arith
  then show ?thesis
    using assms(1,4,5) unfolding containersFit_def
    by (elim disjE)
       (simp_all add: eval_simps read_qint32_short read_QByteArray_short atEnd_device)
qed

lemma decode_cut_inside:
  assumes "containersFit ser r" "2 \<le> k" "k < 20" "extra \<noteq> []" "length extra < 4"
  shows "constructFromSerialized E setFrom v (truncateAfterGroup k ser r @ extra)
           = Some (BadData, [badDataMessage], v)"
proof -
  obtain d where "readFields E v (truncateAfterGroup k ser r @ extra)
           = Some (\<lparr>device = [], q_status = ReadPastEnd\<rparr>, d)"
    using readFields_cut_inside [OF assms] by blast
  then show ?thesis
    using assms(4) by (simp add: constructFromSerialized_def)
qed

lemma decode_bad_stream:
  assumes "serialized \<noteq> []" "readFields E v serialized = Some (stream, d)"
    "q_status stream \<noteq> Ok"
  shows "constructFromSerialized E setFrom v serialized = Some (BadData, [badDataMessage], v)"
  using assms by (simp add: constructFromSerialized_def)

lemma decode_rejected:
  assumes "serialized \<noteq> []" "readFields E v serialized = Some (stream, d)"
    "q_status stream = Ok" "l_autoDownload d \<noteq> []"
    "setFrom (autoDownload v) (l_autoDownload d) = (False, a)"
  shows "constructFromSerialized E setFrom v serialized
           = Some (AutoDownloadRejected, [], v\<lparr>autoDownload := a\<rparr>)"
  using assms by (simp add: constructFromSerialized_def)

lemma commit_exclusive:
  "\<not> (thirdSectionInfoEnabled (commit E d w) \<and> tabbedSelectorSectionEnabled (commit E d w))"
  by (simp add: commit_def Let_def)

lemma decode_exclusive:
  assumes "constructFromSerialized E setFrom v serialized = Some (Decoded, lg, v')"
  shows "\<not> (thirdSectionInfoEnabled v' \<and> tabbedSelectorSectionEnabled v')"
  using assms commit_exclusive
  by (fastforce simp add: constructFromSerialized_def split: if_splits option.splits prod.splits)

subsection \<open>The selector tab does not influence the other reads\<close>

lemma withTab_pair [simp]: "withTab t (s, d) = (s, d\<lparr>l_selectorTab := t\<rparr>)"
  by (simp add: withTab_def)

lemma readGroup3_withTab: "readGroup3 (withTab t st) = withTab t (readGroup3 st)"
  by (cases st) (simp split: prod.splits)
lemma readGroup5_withTab: "readGroup5 (withTab t st) = withTab t (readGroup5 st)"
  by (cases st) (simp split: prod.splits)
lemma readGroup6_withTab: "readGroup6 (withTab t st) = withTab t (readGroup6 st)"
  by (cases st) (simp split: prod.splits)
lemma readGroup8_withTab: "readGroup8 (withTab t st) = withTab t (readGroup8 st)"
  by (cases st) (simp split: prod.splits)
lemma readGroup9_withTab: "readGroup9 (withTab t st) = withTab t (readGroup9 st)"
  by (cases st) (simp split: prod.splits)
lemma readGroup10_withTab: "readGroup10 (withTab t st) = withTab t (readGroup10 st)"
  by (cases st) (simp split: prod.splits)
lemma readGroup11_withTab: "readGroup11 (withTab t st) = withTab t (readGroup11 st)"
  by (cases st) (simp split: prod.splits)
lemma readGroup12_withTab: "readGroup12 (withTab t st) = withTab t (readGroup12 st)"
  by (cases st) (simp split: prod.splits)
lemma readGroup13_withTab: "readGroup13 (withTab t st) = withTab t (readGroup13 st)"
  by (cases st) (simp split: prod.splits)
lemma readGroup14_withTab: "readGroup14 (withTab t st) = withTab t (readGroup14 st)"
  by (cases st) (simp split: prod.splits)
lemma readGroup15_withTab: "readGroup15 (withTab t st) = withTab t (readGroup15 st)"
  by (cases st) (simp split: prod.splits)
lemma readGroup16_withTab: "readGroup16 (withTab t st) = withTab t (readGroup16 st)"
  by (cases st) (simp split: prod.splits)
lemma readGroup17_withTab: "readGroup17 (withTab t st) = withTab t (readGroup17 st)"
  by (cases st) (simp split: prod.splits)
lemma readGroup18_withTab: "readGroup18 (withTab t st) = withTab t (readGroup18 st)"
  by (cases st) (simp split: prod.splits)
lemma readGroup19_withTab: "readGroup19 (withTab t st) = withTab t (readGroup19 st)"
  by (cases st) (simp split: prod.splits)
lemma readGroup20_withTab: "readGroup20 (withTab t st) = withTab t (readGroup20 st)"
  by (cases st) (simp split: prod.splits)

lemma readGroup4_withTab: "readGroup4 (withTab t st) = map_option (withTab t) (readGroup4 st)"
  by (cases st) (simp split: prod.splits option.splits)
lemma readGroup7_withTab: "readGroup7 (withTab t st) = map_option (withTab t) (readGroup7 st)"
  by (cases st) (simp split: prod.splits option.splits)

lemma readTail_withTab: "readTail (withTab t st) = withTab t (readTail st)"
  by (simp only: readTail_def readGroup8_withTab readGroup9_withTab readGroup10_withTab
      readGroup11_withTab readGroup12_withTab readGroup13_withTab readGroup14_withTab
      readGroup15_withTab readGroup16_withTab readGroup17_withTab readGroup18_withTab
      readGroup19_withTab readGroup20_withTab)

lemma readGroup2_tab:
  "readGroup2 (openStream (write_qint32 t @ rest), d)
     = withTab t (readGroup2 (openStream (write_qint32 t' @ rest), d))"
  by (simp add: openStream_def split: prod.splits)

lemma readFields_tab:
  "readFields E v (write_qint32 t @ rest)
     = map_option (withTab t) (readFields E v (write_qint32 t' @ rest))"
proof -
  let ?st = "readGroup2 (openStream (write_qint32 t' @ rest), initLocals E v)"
  have a: "readGroup4 (readGroup3 (readGroup2 (openStream (write_qint32 t @ rest), initLocals E v)))
        = map_option (withTab t) (readGroup4 (readGroup3 ?st))"
    by (simp only: readGroup2_tab [of t rest _ t'] readGroup3_withTab readGroup4_withTab)
  show ?thesis
  proof (cases "readGroup4 (readGroup3 ?st)")
    case None
    then show ?thesis by (simp only: readFields_def a) simp
  next
    case (Some st4)
    have b: "readGroup7 (readGroup6 (readGroup5 (withTab t st4)))
          = map_option (withTab t) (readGroup7 (readGroup6 (readGroup5 st4)))"
      by (simp only: readGroup5_withTab readGroup6_withTab readGroup7_withTab)
    show ?thesis
    proof (cases "readGroup7 (readGroup6 (readGroup5 st4))")
      case None
      then show ?thesis using Some by (simp only: readFields_def a) (simp add: b)
    next
      case st7: (Some st7)
      then show ?thesis using Some by (simp only: readFields_def a) (simp add: b readTail_withTab)
    qed
  qed
qed

lemma commit_tab_illegal:
  assumes "t \<noteq> SelectorTab_Emoji E" "t \<noteq> SelectorTab_Stickers E" "t \<noteq> SelectorTab_Gifs E"
  shows "commit E (d\<lparr>l_selectorTab := t\<rparr>) w = (commit E d w)\<lparr>selectorTab := selectorTab w\<rparr>"
  using assms by (simp add: commit_def Let_def)

lemma decode_tab_illegal:
  assumes "t \<noteq> SelectorTab_Emoji E" "t \<noteq> SelectorTab_Stickers E" "t \<noteq> SelectorTab_Gifs E"
    and "constructFromSerialized E setFrom v (write_qint32 t' @ rest) = Some (Decoded, lg, v')"
  shows "constructFromSerialized E setFrom v (write_qint32 t @ rest)
           = Some (Decoded, lg, v'\<lparr>selectorTab := selectorTab v\<rparr>)"
proof -
  from assms(4) obtain stream d where
    rf: "readFields E v (write_qint32 t' @ rest) = Some (stream, d)"
    by (auto simp add: constructFromSerialized_def split: option.splits)
  then have rt: "readFields E v (write_qint32 t @ rest) = Some (stream, d\<lparr>l_selectorTab := t\<rparr>)"
    by (simp add: readFields_tab [of E v t rest t'])
  show ?thesis
    using assms(4)
    by (auto simp add: constructFromSerialized_def rf rt commit_tab_illegal [OF assms(1,2,3)]
        split: if_splits option.splits prod.splits)
qed

subsection \<open>The ratio\<close>

lemma sint_of_int_small:
  "0 \<le> n \<Longrightarrow> n \<le> 1000000 \<Longrightarrow> sint (word_of_int n :: qint32) = n"
  by (simp add: signed_of_int signed_take_bit_int_eq_self)

lemma snap_range: "lo \<le> hi \<Longrightarrow> lo \<le> snap x lo hi \<and> snap x lo hi \<le> hi"
  by (auto simp add: snap_def)

lemma pow2_powi: "pow2 e = 2 powi e"
  by (simp add: pow2_def power_int_def inverse_eq_divide power_one_over)

lemma pow2_pos: "0 < pow2 e"
  by (simp add: pow2_powi)

lemma pow2_add: "pow2 (a + b) = pow2 a * pow2 b"
  by (simp add: pow2_powi power_int_add)

lemma pow2_0: "pow2 0 = 1"
  by (simp add: pow2_def)

lemma pow2_int: "0 \<le> e \<Longrightarrow> pow2 e = of_int (2 ^ nat e)"
  by (simp add: pow2_def)

lemma pow2_ge_1: "0 \<le> e \<Longrightarrow> 1 \<le> pow2 e"
  by (simp add: pow2_def)

lemma roundHalfEven_le: "m \<le> of_int N \<Longrightarrow> roundHalfEven m \<le> N"
proof -
  assume a: "m \<le> of_int N"
  then have f: "\<lfloor>m\<rfloor> \<le> N" by (simp add: floor_le_iff)
  show ?thesis
  proof (cases "\<lfloor>m\<rfloor> = N")
    case True
    then have "m = of_int N" using a by linarith
    then show ?thesis by (simp add: roundHalfEven_def)
  next
    case False
    then have "\<lfloor>m\<rfloor> + 1 \<le> N" using f by simp
    then show ?thesis by (simp add: roundHalfEven_def Let_def)
  qed
qed

lemma roundHalfEven_ge: "of_int N \<le> m \<Longrightarrow> N \<le> roundHalfEven m"
proof -
  assume a: "of_int N \<le> m"
  then have "N \<le> \<lfloor>m\<rfloor>" by (simp add: le_floor_iff)
  then show ?thesis by (simp add: roundHalfEven_def Let_def)
qed

lemma bitLength_pos: "1 \<le> n \<Longrightarrow> 1 \<le> bitLength n"
proof -
  assume a: "1 \<le> n"
  have "0 \<le> bitLength k" for k
    by (induction k rule: bitLength.induct) (simp add: bitLength.simps)
  then have "0 \<le> bitLength (n div 2)" .
  then show ?thesis using a by (simp add: bitLength.simps [of n])
qed

lemma bitLength_lower: "1 \<le> n \<Longrightarrow> 2 ^ nat (bitLength n - 1) \<le> n"
proof (induction n rule: bitLength.induct)
  case (1 n)
  show ?case
  proof (cases "n = 1")
    case True
    have "bitLength 1 = 1" by (simp add: bitLength.simps)
    then show ?thesis using True by simp
  next
    case False
    then have n2: "1 \<le> n div 2" using "1.prems" by simp
    have ih: "2 ^ nat (bitLength (n div 2) - 1) \<le> n div 2"
      using "1.IH" n2 "1.prems" by simp
    have bl: "bitLength n = 1 + bitLength (n div 2)"
      using "1.prems" by (simp add: bitLength.simps [of n])
    have p: "1 \<le> bitLength (n div 2)" using n2 by (rule bitLength_pos)
    have "nat (bitLength n - 1) = Suc (nat (bitLength (n div 2) - 1))"
      using bl p by simp
    then have "(2::int) ^ nat (bitLength n - 1) = 2 * 2 ^ nat (bitLength (n div 2) - 1)"
      by simp
    also have "\<dots> \<le> 2 * (n div 2)" using ih by simp
    also have "\<dots> \<le> n" by simp
    finally show ?thesis .
  qed
qed

lemma roundDouble_nonneg: "0 \<le> x \<Longrightarrow> 0 \<le> roundDouble x"
proof -
  assume a: "0 \<le> x"
  have "0 \<le> roundHalfEven (x / q)" if "0 < q" for q
    using roundHalfEven_ge [of 0 "x / q"] a that by simp
  then show ?thesis
    using pow2_pos by (simp add: roundDouble_def Let_def less_imp_le)
qed

lemma roundDouble_nonpos: "x \<le> 0 \<Longrightarrow> roundDouble x \<le> 0"
proof -
  assume a: "x \<le> 0"
  have "roundHalfEven (x / q) \<le> 0" if "0 < q" for q
    using roundHalfEven_le [of "x / q" 0] a that by (simp add: divide_nonpos_pos)
  then show ?thesis
    using pow2_pos by (simp add: roundDouble_def Let_def mult_le_0_iff less_imp_le)
qed

lemma binade_le_0: "x \<noteq> 0 \<Longrightarrow> \<bar>x\<bar> \<le> 1 \<Longrightarrow> binade x \<le> 0"
proof -
  assume a: "x \<noteq> 0" "\<bar>x\<bar> \<le> 1"
  show ?thesis
  proof (cases "1 \<le> \<bar>x\<bar>")
    case True
    then have "\<bar>x\<bar> = 1" using a by simp
    then show ?thesis by (simp add: binade_def bitLength.simps)
  next
    case False
    then have "1 \<le> 1 / \<bar>x\<bar>" using a by simp
    then have "1 \<le> \<lfloor>1 / \<bar>x\<bar>\<rfloor>" by (simp add: le_floor_iff)
    then have "1 \<le> bitLength \<lfloor>1 / \<bar>x\<bar>\<rfloor>" by (rule bitLength_pos)
    then show ?thesis using False by (simp add: binade_def Let_def)
  qed
qed

lemma roundDouble_le_1: "x \<le> 1 \<Longrightarrow> roundDouble x \<le> 1"
proof (cases "x \<le> 0")
  case True
  then show ?thesis using roundDouble_nonpos [of x] by simp
next
  case False
  assume a: "x \<le> 1"
  let ?e = "max (binade x) (- 1022) - 52"
  have x: "x \<noteq> 0" "\<bar>x\<bar> \<le> 1" using False a by simp_all
  have e: "0 \<le> - ?e" using binade_le_0 [OF x] by simp
  have q: "pow2 ?e * pow2 (- ?e) = 1"
    using pow2_add [of ?e "- ?e"] by (simp add: pow2_0)
  have qp: "0 < pow2 ?e" by (rule pow2_pos)
  have "x / pow2 ?e = x * pow2 (- ?e)"
    using q qp by (simp add: field_simps)
  also have "\<dots> \<le> pow2 (- ?e)" using a pow2_pos [of "- ?e"] by simp
  also have "\<dots> = of_int (2 ^ nat (- ?e))" using e by (rule pow2_int)
  finally have "roundHalfEven (x / pow2 ?e) \<le> 2 ^ nat (- ?e)" by (rule roundHalfEven_le)
  then have "real_of_int (roundHalfEven (x / pow2 ?e)) \<le> of_int (2 ^ nat (- ?e))"
    by (simp only: of_int_le_iff)
  also have "\<dots> = pow2 (- ?e)" using e by (simp only: pow2_int)
  finally have "real_of_int (roundHalfEven (x / pow2 ?e)) * pow2 ?e \<le> pow2 (- ?e) * pow2 ?e"
    using qp by (simp only: mult_le_cancel_right_pos)
  then show ?thesis using q x by (simp add: roundDouble_def Let_def mult.commute)
qed

lemma roundDouble_ge_1: "1 \<le> x \<Longrightarrow> 1 \<le> roundDouble x"
proof -
  assume a: "1 \<le> x"
  let ?b = "bitLength \<lfloor>x\<rfloor> - 1"
  let ?e = "?b - 52"
  have fl: "1 \<le> \<lfloor>x\<rfloor>" using a by (simp add: le_floor_iff)
  have b0: "0 \<le> ?b" using bitLength_pos [OF fl] by simp
  have bin: "binade x = ?b" using a by (simp add: binade_def)
  have mx: "max (binade x) (- 1022) - 52 = ?e" using bin b0 by simp
  have "real_of_int (2 ^ nat ?b) \<le> of_int \<lfloor>x\<rfloor>"
    using bitLength_lower [OF fl] by (simp only: of_int_le_iff)
  also have "\<dots> \<le> x" by simp
  finally have lo: "pow2 ?b \<le> x" using b0 by (simp only: pow2_int)
  have qp: "0 < pow2 ?e" by (rule pow2_pos)
  have split: "pow2 ?b = pow2 52 * pow2 ?e"
    using pow2_add [of 52 ?e] by simp
  have "pow2 52 * pow2 ?e / pow2 ?e \<le> x / pow2 ?e"
    using lo qp unfolding split by (simp only: divide_le_cancel) simp
  then have "pow2 52 \<le> x / pow2 ?e" using qp by simp
  then have "of_int (2 ^ nat 52) \<le> x / pow2 ?e" by (simp add: pow2_def)
  then have "2 ^ nat 52 \<le> roundHalfEven (x / pow2 ?e)" by (rule roundHalfEven_ge)
  then have "real_of_int (2 ^ nat 52) \<le> of_int (roundHalfEven (x / pow2 ?e))"
    by (simp only: of_int_le_iff)
  then have "pow2 52 \<le> of_int (roundHalfEven (x / pow2 ?e))" by (simp add: pow2_def)
  then have "pow2 52 * pow2 ?e \<le> of_int (roundHalfEven (x / pow2 ?e)) * pow2 ?e"
    using qp by (simp only: mult_le_cancel_right_pos)
  then have "pow2 ?b \<le> of_int (roundHalfEven (x / pow2 ?e)) * pow2 ?e"
    by (simp only: split)
  moreover have "1 \<le> pow2 ?b" using b0 by (rule pow2_ge_1)
  ultimately have "1 \<le> of_int (roundHalfEven (x / pow2 ?e)) * pow2 ?e" by linarith
  moreover have "x \<noteq> 0" using a by simp
  ultimately show ?thesis by (simp add: roundDouble_def Let_def mx)
qed

lemma snap_ratio_cases:
  "0 \<le> snap (roundDouble (real_of_int i / 1000000)) 0 1
   \<and> snap (roundDouble (real_of_int i / 1000000)) 0 1 \<le> 1
   \<and> (if i < 0 then snap (roundDouble (real_of_int i / 1000000)) 0 1 = 0
      else if 1000000 < i then snap (roundDouble (real_of_int i / 1000000)) 0 1 = 1
      else snap (roundDouble (real_of_int i / 1000000)) 0 1
             = roundDouble (real_of_int i / 1000000))"
proof -
  let ?x = "real_of_int i / 1000000"
  have neg: "roundDouble ?x \<le> 0" if "i < 0"
    using that by (intro roundDouble_nonpos) simp
  have big: "1 \<le> roundDouble ?x" if "1000000 < i"
    using that by (intro roundDouble_ge_1) simp
  have mid: "0 \<le> roundDouble ?x \<and> roundDouble ?x \<le> 1" if "0 \<le> i" "i \<le> 1000000"
    using that by (intro conjI roundDouble_nonneg roundDouble_le_1) simp_all
  consider "i < 0" | "0 \<le> i \<and> i \<le> 1000000" | "1000000 < i" by linarith
  then show ?thesis
  proof cases
    case 1
    then show ?thesis using neg by (simp add: snap_def)
  next
    case 2
    then show ?thesis using mid by (simp add: snap_def)
  next
    case 3
    then show ?thesis using big by (simp add: snap_def)
  qed
qed

lemma decodeRatio_cases:
  "0 \<le> decodeRatio val \<and> decodeRatio val \<le> 1
   \<and> (if sint val < 0 then decodeRatio val = 0
      else if 1000000 < sint val then decodeRatio val = 1
      else decodeRatio val = roundDouble (real_of_int (sint val) / 1000000))"
  unfolding decodeRatio_def by (rule snap_ratio_cases)

lemma ratioSlot_sint:
  "sint (ratioSlot x) = snap (sint (qRound (roundDouble (x * 1000000)))) 0 1000000"
proof -
  let ?n = "snap (sint (qRound (roundDouble (x * 1000000)))) 0 1000000"
  have "0 \<le> ?n \<and> ?n \<le> 1000000" by (rule snap_range) simp
  then show ?thesis by (simp add: ratioSlot_def sint_of_int_small)
qed

lemma ratioSlot_range: "0 \<le> sint (ratioSlot x) \<and> sint (ratioSlot x) \<le> 1000000"
  unfolding ratioSlot_sint by (rule snap_range) simp

lemma storedRatio_eq:
  "storedRatio x
     = roundDouble (real_of_int (snap (sint (qRound (roundDouble (x * 1000000)))) 0 1000000)
         / 1000000)"
proof -
  have "decodeRatio (ratioSlot x) = roundDouble (real_of_int (sint (ratioSlot x)) / 1000000)"
    using decodeRatio_cases [of "ratioSlot x"] ratioSlot_range [of x]
    by (simp split: if_splits)
  then show ?thesis by (simp only: storedRatio_def ratioSlot_sint)
qed

lemma storedRatio_range: "0 \<le> storedRatio x \<and> storedRatio x \<le> 1"
  unfolding storedRatio_def using decodeRatio_cases [of "ratioSlot x"] by simp

lemma roundHalfEven_near: "\<bar>real_of_int (roundHalfEven m) - m\<bar> \<le> 1 / 2"
  by (simp add: roundHalfEven_def Let_def)

lemma bitLength_upper: "0 \<le> n \<Longrightarrow> n < 2 ^ nat (bitLength n)"
proof (induction n rule: bitLength.induct)
  case (1 n)
  show ?case
  proof (cases "n = 0")
    case True
    then show ?thesis by (simp add: bitLength.simps)
  next
    case False
    then have pos: "0 < n" using "1.prems" by simp
    have ih: "n div 2 < 2 ^ nat (bitLength (n div 2))"
      using "1.IH" pos by simp
    have bl: "bitLength n = 1 + bitLength (n div 2)"
      using pos by (simp add: bitLength.simps [of n])
    have nn: "0 \<le> bitLength (n div 2)"
    proof (cases "1 \<le> n div 2")
      case True
      then show ?thesis using bitLength_pos [of "n div 2"] by simp
    next
      case False
      then have "n div 2 = 0" using pos by simp
      then show ?thesis by (simp add: bitLength.simps)
    qed
    have "nat (bitLength n) = Suc (nat (bitLength (n div 2)))" using bl nn by simp
    then have "(2::int) ^ nat (bitLength n) = 2 * 2 ^ nat (bitLength (n div 2))" by simp
    moreover have "n < 2 * (n div 2 + 1)" by presburger
    ultimately show ?thesis using ih by linarith
  qed
qed

lemma binade_lower: "x \<noteq> 0 \<Longrightarrow> pow2 (binade x) \<le> \<bar>x\<bar>"
proof (cases "1 \<le> \<bar>x\<bar>")
  case True
  let ?b = "bitLength \<lfloor>\<bar>x\<bar>\<rfloor> - 1"
  have fl: "1 \<le> \<lfloor>\<bar>x\<bar>\<rfloor>" using True by (simp add: le_floor_iff)
  have b0: "0 \<le> ?b" using bitLength_pos [OF fl] by simp
  have "real_of_int (2 ^ nat ?b) \<le> of_int \<lfloor>\<bar>x\<bar>\<rfloor>"
    using bitLength_lower [OF fl] by (simp only: of_int_le_iff)
  also have "\<dots> \<le> \<bar>x\<bar>" by simp
  finally have "pow2 ?b \<le> \<bar>x\<bar>" using b0 by (simp only: pow2_int)
  then show ?thesis using True by (simp add: binade_def)
next
  case False
  assume nz: "x \<noteq> 0"
  let ?k = "bitLength \<lfloor>1 / \<bar>x\<bar>\<rfloor> - 1"
  have ax: "0 < \<bar>x\<bar>" "\<bar>x\<bar> < 1" using False nz by simp_all
  have "1 \<le> 1 / \<bar>x\<bar>" using ax by simp
  then have fl: "1 \<le> \<lfloor>1 / \<bar>x\<bar>\<rfloor>" by (simp add: le_floor_iff)
  have k0: "0 \<le> ?k" using bitLength_pos [OF fl] by simp
  show ?thesis
  proof (cases "\<bar>x\<bar> * pow2 ?k = 1")
    case True
    have "pow2 (- ?k) * pow2 ?k = 1" using pow2_add [of "- ?k" ?k] by (simp add: pow2_0)
    then have "pow2 (- ?k) = \<bar>x\<bar>"
      using True pow2_pos [of ?k] by (metis mult_cancel_right less_irrefl)
    then show ?thesis using False True by (simp add: binade_def Let_def)
  next
    case neq: False
    have "\<lfloor>1 / \<bar>x\<bar>\<rfloor> < 2 ^ nat (bitLength \<lfloor>1 / \<bar>x\<bar>\<rfloor>)"
      using fl by (intro bitLength_upper) simp
    then have "\<lfloor>1 / \<bar>x\<bar>\<rfloor> + 1 \<le> 2 ^ nat (?k + 1)" by simp
    then have "real_of_int (\<lfloor>1 / \<bar>x\<bar>\<rfloor> + 1) \<le> real_of_int (2 ^ nat (?k + 1))"
      by (simp only: of_int_le_iff)
    moreover have "1 / \<bar>x\<bar> < real_of_int (\<lfloor>1 / \<bar>x\<bar>\<rfloor> + 1)" by linarith
    ultimately have "1 / \<bar>x\<bar> < real_of_int (2 ^ nat (?k + 1))" by linarith
    then have "1 / \<bar>x\<bar> < pow2 (?k + 1)" using k0 by (simp add: pow2_def)
    then have "1 < pow2 (?k + 1) * \<bar>x\<bar>" using ax by (simp add: field_simps)
    moreover have "pow2 (- ?k - 1) * pow2 (?k + 1) = 1"
      using pow2_add [of "- ?k - 1" "?k + 1"] by (simp add: pow2_0)
    ultimately have "pow2 (- ?k - 1) * pow2 (?k + 1) < pow2 (?k + 1) * \<bar>x\<bar>" by simp
    then have "pow2 (- ?k - 1) < \<bar>x\<bar>"
      using pow2_pos [of "?k + 1"] by (simp add: mult.commute)
    then show ?thesis using False neq by (simp add: binade_def Let_def)
  qed
qed

lemma roundDouble_error:
  assumes "x \<noteq> 0" and "- 1022 \<le> binade x"
  shows "\<bar>roundDouble x - x\<bar> \<le> \<bar>x\<bar> / 2 ^ 53"
proof -
  let ?q = "pow2 (binade x - 52)"
  have qp: "0 < ?q" by (rule pow2_pos)
  have mx: "max (binade x) (- 1022) = binade x" using assms(2) by simp
  have rd: "roundDouble x = of_int (roundHalfEven (x / ?q)) * ?q"
    using assms(1) by (simp add: roundDouble_def Let_def mx)
  have "roundDouble x - x = (of_int (roundHalfEven (x / ?q)) - x / ?q) * ?q"
    using qp by (simp add: rd field_simps)
  then have "\<bar>roundDouble x - x\<bar> = \<bar>of_int (roundHalfEven (x / ?q)) - x / ?q\<bar> * ?q"
    using qp by (simp add: abs_mult)
  also have "\<dots> \<le> 1 / 2 * ?q"
    using roundHalfEven_near [of "x / ?q"] qp by (intro mult_right_mono) simp_all
  also have "\<dots> = pow2 (binade x) / 2 ^ 53"
    using pow2_add [of "binade x" "- 53"] pow2_add [of "binade x - 52" "- 1"]
    by (simp add: pow2_def [of "- 53"] pow2_def [of "- 1"])
  also have "\<dots> \<le> \<bar>x\<bar> / 2 ^ 53"
    using binade_lower [OF assms(1)] by (simp add: divide_right_mono)
  finally show ?thesis .
qed


lemma pow2_mono: "a \<le> b \<Longrightarrow> pow2 a \<le> pow2 b"
  by (simp add: pow2_powi power_int_increasing)

lemma binade_upper: "x \<noteq> 0 \<Longrightarrow> \<bar>x\<bar> < pow2 (binade x + 1)"
proof (cases "1 \<le> \<bar>x\<bar>")
  case True
  let ?b = "bitLength \<lfloor>\<bar>x\<bar>\<rfloor>"
  have fl: "1 \<le> \<lfloor>\<bar>x\<bar>\<rfloor>" using True by (simp add: le_floor_iff)
  have b0: "1 \<le> ?b" using bitLength_pos [OF fl] .
  have "\<lfloor>\<bar>x\<bar>\<rfloor> < 2 ^ nat ?b" using fl by (intro bitLength_upper) simp
  then have "\<lfloor>\<bar>x\<bar>\<rfloor> + 1 \<le> 2 ^ nat ?b" by simp
  then have "real_of_int (\<lfloor>\<bar>x\<bar>\<rfloor> + 1) \<le> real_of_int (2 ^ nat ?b)"
    by (simp only: of_int_le_iff)
  moreover have "\<bar>x\<bar> < real_of_int (\<lfloor>\<bar>x\<bar>\<rfloor> + 1)" by linarith
  ultimately have "\<bar>x\<bar> < real_of_int (2 ^ nat ?b)" by linarith
  then have "\<bar>x\<bar> < pow2 ?b" using b0 by (simp add: pow2_def)
  then show ?thesis using True by (simp add: binade_def)
next
  case False
  assume nz: "x \<noteq> 0"
  let ?k = "bitLength \<lfloor>1 / \<bar>x\<bar>\<rfloor> - 1"
  have ax: "0 < \<bar>x\<bar>" "\<bar>x\<bar> < 1" using False nz by simp_all
  have "1 \<le> 1 / \<bar>x\<bar>" using ax by simp
  then have fl: "1 \<le> \<lfloor>1 / \<bar>x\<bar>\<rfloor>" by (simp add: le_floor_iff)
  have k0: "0 \<le> ?k" using bitLength_pos [OF fl] by simp
  have inv: "pow2 (- ?k) * pow2 ?k = 1" using pow2_add [of "- ?k" ?k] by (simp add: pow2_0)
  have "real_of_int (2 ^ nat ?k) \<le> of_int \<lfloor>1 / \<bar>x\<bar>\<rfloor>"
    using bitLength_lower [OF fl] by (simp only: of_int_le_iff)
  also have "\<dots> \<le> 1 / \<bar>x\<bar>" by simp
  finally have "pow2 ?k \<le> 1 / \<bar>x\<bar>" using k0 by (simp only: pow2_int)
  then have le1: "\<bar>x\<bar> * pow2 ?k \<le> 1" using ax by (simp add: field_simps)
  show ?thesis
  proof (cases "\<bar>x\<bar> * pow2 ?k = 1")
    case True
    then have "pow2 (- ?k) = \<bar>x\<bar>"
      using inv pow2_pos [of ?k] by (metis mult_cancel_right less_irrefl)
    moreover have "pow2 (- ?k + 1) = pow2 (- ?k) * 2"
      using pow2_add [of "- ?k" 1] by (simp add: pow2_def [of 1])
    ultimately have "\<bar>x\<bar> < pow2 (- ?k + 1)" using ax by simp
    then show ?thesis using False True by (simp add: binade_def Let_def)
  next
    case neq: False
    then have "\<bar>x\<bar> * pow2 ?k < pow2 (- ?k) * pow2 ?k" using le1 inv by simp
    then have "\<bar>x\<bar> < pow2 (- ?k)" using pow2_pos [of ?k] by simp
    then show ?thesis using False neq by (simp add: binade_def Let_def)
  qed
qed

lemma binade_normal: "1 / 2 ^ 20 \<le> \<bar>x\<bar> \<Longrightarrow> - 1022 \<le> binade x"
proof (rule ccontr)
  assume a: "1 / 2 ^ 20 \<le> \<bar>x\<bar>" and "\<not> - 1022 \<le> binade x"
  then have "binade x + 1 \<le> - 20" by simp
  then have "pow2 (binade x + 1) \<le> pow2 (- 20)" by (rule pow2_mono)
  moreover have "x \<noteq> 0" using a by auto
  ultimately have "\<bar>x\<bar> < pow2 (- 20)" using binade_upper [of x] by simp
  then show False using a by (simp add: pow2_def)
qed

lemma roundDouble_near:
  assumes "1 / 2 ^ 20 \<le> x" and "x \<le> 2 ^ 20"
  shows "\<bar>roundDouble x - x\<bar> \<le> 1 / 2 ^ 33"
proof -
  have nz: "x \<noteq> 0" using assms(1) by auto
  have "- 1022 \<le> binade x" using assms(1) by (intro binade_normal) simp
  then have "\<bar>roundDouble x - x\<bar> \<le> \<bar>x\<bar> / 2 ^ 53" using nz by (intro roundDouble_error)
  also have "\<dots> \<le> 2 ^ 20 / 2 ^ 53" using assms by (intro divide_right_mono) simp_all
  finally show ?thesis by simp
qed

lemma abs_diffD: "\<bar>a - b\<bar> \<le> d \<Longrightarrow> b - d \<le> a \<and> a \<le> b + (d :: real)"
  by (simp add: abs_le_iff)

lemma ratioSlot_millionths:
  assumes "0 \<le> n" and "n \<le> 1000000"
  shows "ratioSlot (roundDouble (real_of_int n / 1000000)) = word_of_int n"
proof (cases "n = 0")
  case True
  then show ?thesis
    by (simp add: ratioSlot_def roundDouble_def binade_def bitLength.simps pow2_def
        roundHalfEven_def qRound_def toInt_def snap_def Let_def)
next
  case False
  then have n1: "1 \<le> n" using assms(1) by simp
  define m where "m = real_of_int n"
  define x where "x = m / 1000000"
  define y where "y = roundDouble x"
  define p where "p = y * 1000000"
  define P where "P = roundDouble p"
  define Q where "Q = roundDouble (P + 1 / 2)"
  have rn: "1 \<le> m" "m \<le> 1000000" using n1 assms(2) by (simp_all add: m_def)
  have x: "1 / 2 ^ 20 \<le> x" "x \<le> 1" "0 < x" using rn by (simp_all add: x_def)
  have "- 1022 \<le> binade x" using x(1) by (intro binade_normal) simp
  then have "\<bar>y - x\<bar> \<le> \<bar>x\<bar> / 2 ^ 53"
    unfolding y_def using x(3) by (intro roundDouble_error) simp_all
  then have "\<bar>y - x\<bar> \<le> 1 / 2 ^ 53" using x by simp
  then have yx: "x - 1 / 2 ^ 53 \<le> y \<and> y \<le> x + 1 / 2 ^ 53" by (rule abs_diffD)
  have xm: "x * 1000000 = m" by (simp add: x_def)
  have pm: "m - 1 / 2 ^ 33 \<le> p \<and> p \<le> m + 1 / 2 ^ 33"
    using yx xm unfolding p_def by simp
  then have pr: "1 / 2 ^ 20 \<le> p" "p \<le> 2 ^ 20" using rn by simp_all
  have "\<bar>P - p\<bar> \<le> 1 / 2 ^ 33" unfolding P_def using pr by (rule roundDouble_near)
  then have "p - 1 / 2 ^ 33 \<le> P \<and> P \<le> p + 1 / 2 ^ 33" by (rule abs_diffD)
  then have Pm: "m - 1 / 2 ^ 32 \<le> P \<and> P \<le> m + 1 / 2 ^ 32" using pm by simp
  then have Pr: "1 / 2 ^ 20 \<le> P + 1 / 2" "P + 1 / 2 \<le> 2 ^ 20" using rn by simp_all
  have P0: "0 \<le> P" using Pm rn by simp
  have "\<bar>Q - (P + 1 / 2)\<bar> \<le> 1 / 2 ^ 33" unfolding Q_def using Pr by (rule roundDouble_near)
  then have "P + 1 / 2 - 1 / 2 ^ 33 \<le> Q \<and> Q \<le> P + 1 / 2 + 1 / 2 ^ 33" by (rule abs_diffD)
  then have Q: "m \<le> Q" "Q < m + 1" using Pm by simp_all
  then have fl: "\<lfloor>Q\<rfloor> = n" unfolding m_def by (simp add: floor_eq_iff)
  have "0 \<le> Q" "Q < 2147483648" using Q rn by simp_all
  then have "toInt Q = word_of_int n" using fl by (simp add: toInt_def)
  then have "qRound P = word_of_int n"
    using P0 by (simp add: qRound_def Q_def [symmetric])
  then have "ratioSlot y = word_of_int n"
    using assms
    by (simp add: ratioSlot_def p_def [symmetric] P_def [symmetric] sint_of_int_small snap_def)
  then show ?thesis by (simp add: y_def x_def m_def)
qed

lemma storedRatio_millionths:
  assumes "0 \<le> n" and "n \<le> 1000000"
  shows "storedRatio (roundDouble (real_of_int n / 1000000))
           = roundDouble (real_of_int n / 1000000)"
  using assms decodeRatio_cases [of "word_of_int n"]
  by (simp add: storedRatio_def ratioSlot_millionths sint_of_int_small)

lemma storedRatio_idem: "storedRatio (storedRatio x) = storedRatio x"
proof -
  let ?n = "snap (sint (qRound (roundDouble (x * 1000000)))) 0 1000000"
  have "0 \<le> ?n \<and> ?n \<le> 1000000" by (rule snap_range) simp
  then have "storedRatio (roundDouble (real_of_int ?n / 1000000))
           = roundDouble (real_of_int ?n / 1000000)"
    by (intro storedRatio_millionths) simp_all
  then show ?thesis by (simp only: storedRatio_eq [of x])
qed

lemmas double_simps =
  roundDouble_def binade_def bitLength.simps pow2_def roundHalfEven_def qRound_def toInt_def
  snap_def Let_def

subsection \<open>The setters\<close>

lemma setTabbed_True_third:
  "\<not> thirdSectionInfoEnabled (variables (setTabbedSelectorSectionEnabled True s))"
  by (simp add: Let_def setTabbedReplacedWithInfo_def)

lemma setThird_True_tabbed:
  "panelsExclusive s \<Longrightarrow>
   \<not> tabbedSelectorSectionEnabled (variables (setThirdSectionInfoEnabled True s))"
  by (auto simp add: Let_def setTabbedReplacedWithInfo_def panelsExclusive_def)

lemma setThird_True_noop:
  "thirdSectionInfoEnabled (variables s) \<Longrightarrow> setThirdSectionInfoEnabled True s = s"
  by simp

lemma applyCall_exclusive: "panelsExclusive s \<Longrightarrow> panelsExclusive (applyCall c s)"
  by (cases c) (auto simp add: Let_def setTabbedReplacedWithInfo_def panelsExclusive_def)

lemma applyCalls_exclusive: "panelsExclusive s \<Longrightarrow> panelsExclusive (applyCalls calls s)"
  unfolding applyCalls_def
  by (induction calls arbitrary: s) (simp_all add: applyCall_exclusive)

lemma decode_returns: "\<exists>res. constructFromSerialized E setFrom v serialized = Some res"
proof -
  obtain st where "readFields E v serialized = Some st" using readFields_returns by blast
  then show ?thesis
    by (cases st) (auto simp add: constructFromSerialized_def split: option.split prod.split)
qed

lemma decode_keeps_exclusive:
  assumes "constructFromSerialized E setFrom v serialized = Some (outcome, lg, v')"
    and "\<not> (thirdSectionInfoEnabled v \<and> tabbedSelectorSectionEnabled v)"
  shows "\<not> (thirdSectionInfoEnabled v' \<and> tabbedSelectorSectionEnabled v')"
proof (cases outcome)
  case Decoded
  then show ?thesis using assms(1) decode_exclusive by blast
next
  case EmptyInput
  then show ?thesis
    using assms
    by (auto simp add: constructFromSerialized_def split: if_splits option.splits prod.splits)
next
  case BadData
  then show ?thesis
    using assms
    by (auto simp add: constructFromSerialized_def split: if_splits option.splits prod.splits)
next
  case AutoDownloadRejected
  then show ?thesis
    using assms
    by (auto simp add: constructFromSerialized_def split: if_splits option.splits prod.splits)
qed

lemma applyOperation_exclusive:
  assumes "panelsExclusive s"
  shows "\<exists>s'. applyOperation E setFrom operation s = Some s' \<and> panelsExclusive s'"
proof (cases operation)
  case (CallSetter c)
  then show ?thesis using assms by (simp add: applyCall_exclusive)
next
  case (CallConstructFromSerialized serialized)
  obtain outcome lg v' where
    d: "constructFromSerialized E setFrom (variables s) serialized = Some (outcome, lg, v')"
    using decode_returns [of E setFrom "variables s" serialized] by (metis prod_cases3)
  have "\<not> (thirdSectionInfoEnabled v' \<and> tabbedSelectorSectionEnabled v')"
    using decode_keeps_exclusive [OF d] assms by (auto simp add: panelsExclusive_def)
  then show ?thesis
    using CallConstructFromSerialized d by (auto simp add: panelsExclusive_def)
qed

lemma applyOperations_exclusive:
  "panelsExclusive s \<Longrightarrow>
   \<exists>s'. applyOperations E setFrom operations s = Some s' \<and> panelsExclusive s'"
proof (induction operations arbitrary: s)
  case Nil
  then show ?case by simp
next
  case (Cons operation operations)
  obtain s1 where a: "applyOperation E setFrom operation s = Some s1" and b: "panelsExclusive s1"
    using applyOperation_exclusive [OF Cons.prems] by blast
  show ?case using Cons.IH [OF b] a by simp
qed

lemma newAuthSessionSettings_exclusive: "panelsExclusive (newAuthSessionSettings E a)"
  by (simp add: panelsExclusive_def newAuthSessionSettings_def defaultVariables_def)

subsection \<open>The concrete instances\<close>

lemma sample_containersFit: "containersFit sample_serialize sampleSettings"
  by (simp add: containersFit_def sampleSettings_def QMap_ok_def stringsFit_def
      flat_set_ok_def sample_serialize_def)

lemma sample_valid: "validVariables sampleEnumerators sample_serialize sampleSettings"
  using sample_containersFit
  by (simp add: validVariables_def enumsLegal_def sampleSettings_def sampleEnumerators_def)

lemma default_valid:
  "validVariables sampleEnumerators sample_serialize (defaultVariables sampleEnumerators [])"
  by (simp add: validVariables_def enumsLegal_def containersFit_def defaultVariables_def
      sampleEnumerators_def QMap_ok_def stringsFit_def flat_set_ok_def sample_serialize_def)

lemma sample_codecAccepts:
  "codecAccepts sample_setFromSerialized sample_serialize currentSettings sampleSettings"
  by (simp add: codecAccepts_def sample_setFromSerialized_def sample_serialize_def)

lemma sample_ratioSlot: "ratioSlot (341 / 1024) = 333008"
  by (simp add: ratioSlot_def double_simps)

lemma sample_storedRatio: "storedRatio (341 / 1024) = roundDouble (333008 / 1000000)"
proof -
  have "sint (333008 :: qint32) = 333008" by simp
  then show ?thesis
    using decodeRatio_cases [of 333008]
    by (simp add: storedRatio_def sample_ratioSlot)
qed

lemma sample_ratio_changes: "roundDouble (333008 / 1000000) \<noteq> 341 / 1024"
  by (simp add: double_simps)

lemma sample_expected:
  "expectedPrefix sampleEnumerators 20 sampleSettings currentSettings
     = sampleSettings\<lparr>dialogsWidthRatio := roundDouble (333008 / 1000000)\<rparr>"
  by (simp add: expectedPrefix_def sampleSettings_def sample_storedRatio)

lemma sample_v2_containersFit: "containersFit sample_serialize_v2 sampleSettings"
  by (simp add: containersFit_def sampleSettings_def QMap_ok_def stringsFit_def
      flat_set_ok_def sample_serialize_v2_def)

subsection \<open>Single fields of the result\<close>

lemma commit_localsAfter_panels:
  "thirdSectionInfoEnabled (commit E (localsAfter E 20 ser r v) w) = thirdSectionInfoEnabled r
   \<and> tabbedSelectorSectionEnabled (commit E (localsAfter E 20 ser r v) w)
       = (tabbedSelectorSectionEnabled r \<and> \<not> thirdSectionInfoEnabled r)"
  by (simp add: commit_def localsAfter_def Let_def of_bool32_def)

lemma commit_localsAfter_selectorTab:
  "selectorTab (commit E (localsAfter E 20 ser r v) w)
     = (if selectorTab r = SelectorTab_Emoji E \<or> selectorTab r = SelectorTab_Stickers E
           \<or> selectorTab r = SelectorTab_Gifs E
        then selectorTab r else selectorTab w)"
  by (simp add: commit_def localsAfter_def Let_def)

lemma commit_dialogsWidthRatio: "dialogsWidthRatio (commit E d w) = l_dialogsWidthRatio d"
  by (simp add: commit_def Let_def)

lemma commit_hadLegacy:
  "hadLegacyCallsPeerToPeerNobody (commit E d w) = (l_legacyCallsPeerToPeer d = 4)"
  by (simp add: commit_def Let_def kLegacyCallsPeerToPeerNobody_def)

lemma readFields_raw_ratio:
  assumes "containersFit ser r"
  shows "readFields E v (truncateAfterGroup 8 ser r
            @ write_qint32 raw @ write_qint32 w @ write_qint32 e)
           = Some (\<lparr>device = [], q_status = Ok\<rparr>,
               (localsAfter E 8 ser r v)
                 \<lparr>l_dialogsWidthRatio := decodeRatio raw,
                  l_thirdColumnWidth := w,
                  l_thirdSectionExtendedBy := e\<rparr>)"
  using assms unfolding containersFit_def
  by (simp add: eval_simps)

lemma decode_raw_ratio:
  assumes "containersFit ser (r :: 'ad Variables)"
  shows "\<exists>v'. constructFromSerialized E setFrom (v :: 'ad Variables)
            (truncateAfterGroup 8 ser r @ write_qint32 raw @ write_qint32 w @ write_qint32 e)
           = Some (Decoded, [], v') \<and> dialogsWidthRatio v' = decodeRatio raw"
proof -
  let ?blob = "truncateAfterGroup 8 ser r @ write_qint32 raw @ write_qint32 w @ write_qint32 e"
  have ne: "?blob \<noteq> []"
    by simp
  have rf: "readFields E v ?blob = Some (\<lparr>device = [], q_status = Ok\<rparr>,
               (localsAfter E 8 ser r v)
                 \<lparr>l_dialogsWidthRatio := decodeRatio raw,
                  l_thirdColumnWidth := w,
                  l_thirdSectionExtendedBy := e\<rparr>)"
    using assms by (rule readFields_raw_ratio)
  have ad: "l_autoDownload ((localsAfter E 8 ser r v)
                 \<lparr>l_dialogsWidthRatio := decodeRatio raw,
                  l_thirdColumnWidth := w,
                  l_thirdSectionExtendedBy := e\<rparr>) = []"
    by (simp add: localsAfter_def)
  have "constructFromSerialized E setFrom v ?blob
      = Some (Decoded, [], commit E ((localsAfter E 8 ser r v)
                 \<lparr>l_dialogsWidthRatio := decodeRatio raw,
                  l_thirdColumnWidth := w,
                  l_thirdSectionExtendedBy := e\<rparr>) v)"
    unfolding constructFromSerialized_def rf using ne ad by simp
  then show ?thesis by (simp add: commit_dialogsWidthRatio)
qed

subsection \<open>The decode of the sample blob\<close>

lemma sample_decode:
  "constructFromSerialized sampleEnumerators sample_setFromSerialized currentSettings
       (serialize sample_serialize sampleSettings)
     = Some (Decoded, [], sampleSettings\<lparr>dialogsWidthRatio := roundDouble (333008 / 1000000)\<rparr>)"
proof -
  have "constructFromSerialized sampleEnumerators sample_setFromSerialized currentSettings
          (truncateAfterGroup 20 sample_serialize sampleSettings)
        = Some (Decoded, [], expectedPrefix sampleEnumerators 20 sampleSettings currentSettings)"
    using sample_valid sample_codecAccepts by (intro decode_truncated_valid) simp_all
  then show ?thesis
    by (simp only: serialize_truncate sample_expected)
qed

lemma serialize_head:
  "serialize ser r = write_qint32 (selectorTab r) @ drop 4 (serialize ser r)"
  by (simp add: serialize_def)

lemma sample_v2_readFields:
  "readFields sampleEnumerators currentSettings
       (truncateAfterGroup 20 sample_serialize_v2 sampleSettings)
     = Some (\<lparr>device = [], q_status = Ok\<rparr>,
         localsAfter sampleEnumerators 20 sample_serialize_v2 sampleSettings currentSettings)"
  using sample_v2_containersFit by (intro readFields_truncated) simp_all

section \<open>The claims\<close>

subsection \<open>C1: round trip\<close>

text \<open>
  C1, as stated, fails: the record \<open>sampleSettings\<close> is valid, its ratio is the
  double 341/1024 = 0.3330078125, and decoding its blob gives a record whose
  ratio is the double nearest to 0.333008. The blob stores the ratio as a whole
  number of millionths: 341/1024 times 1000000 is 333007.8125, which
  \<^verbatim>\<open>qRound\<close> rounds to 333008.
\<close>

theorem C1_roundtrip_counterexample:
  "validVariables sampleEnumerators sample_serialize sampleSettings
   \<and> constructFromSerialized sampleEnumerators sample_setFromSerialized currentSettings
         (serialize sample_serialize sampleSettings)
       = Some (Decoded, [], sampleSettings\<lparr>dialogsWidthRatio := roundDouble (333008 / 1000000)\<rparr>)
   \<and> dialogsWidthRatio sampleSettings = 341 / 1024
   \<and> roundDouble (341 / 1024) = 341 / 1024
   \<and> ratioSlot (341 / 1024) = 333008
   \<and> roundDouble (333008 / 1000000) \<noteq> 341 / 1024
   \<and> sampleSettings\<lparr>dialogsWidthRatio := roundDouble (333008 / 1000000)\<rparr>
       \<noteq> sampleSettings\<lparr>hadLegacyCallsPeerToPeerNobody := False\<rparr>"
proof -
  have ratio: "dialogsWidthRatio sampleSettings = 341 / 1024"
    by (simp add: sampleSettings_def)
  have double: "roundDouble (341 / 1024) = 341 / 1024"
    by (simp add: double_simps)
  have ne: "sampleSettings\<lparr>dialogsWidthRatio := roundDouble (333008 / 1000000)\<rparr>
       \<noteq> sampleSettings\<lparr>hadLegacyCallsPeerToPeerNobody := False\<rparr>"
  proof
    assume "sampleSettings\<lparr>dialogsWidthRatio := roundDouble (333008 / 1000000)\<rparr>
       = sampleSettings\<lparr>hadLegacyCallsPeerToPeerNobody := False\<rparr>"
    then have "dialogsWidthRatio
                 (sampleSettings\<lparr>dialogsWidthRatio := roundDouble (333008 / 1000000)\<rparr>)
       = dialogsWidthRatio (sampleSettings\<lparr>hadLegacyCallsPeerToPeerNobody := False\<rparr>)"
      by (rule arg_cong)
    then show False using sample_ratio_changes ratio by simp
  qed
  show ?thesis
    using sample_valid sample_decode ratio double sample_ratioSlot sample_ratio_changes ne
    by blast
qed

text \<open>
  C1, amended. For every valid record \<open>r\<close> (legal enumerators, well-formed
  containers) whose auto-download settings the delegated codec gives back,
  decoding the blob of \<open>r\<close> into any record succeeds and yields \<open>r\<close> in every
  field except three: the legacy flag is false (the sentinel is written as 0);
  the ratio comes back as the double nearest to \<open>n / 1000000\<close>, where \<open>n\<close>, the
  integer in the blob, is the double product of the ratio and 1000000 rounded
  by \<^verbatim>\<open>qRound\<close> to a 32-bit integer and clamped to the range from 0 to 1000000,
  so that the ratio that comes back lies between 0 and 1; the tabbed-selector
  flag comes back false when the info-panel flag of \<open>r\<close> is true. A ratio
  that is the double nearest to a whole number of millionths between 0 and 1
  comes back as it is; so does, therefore, every ratio that came out of a
  decode. So when the ratio of \<open>r\<close> is such a double and the two panel flags
  of \<open>r\<close> are not both true, the result is \<open>r\<close> with the legacy flag false.
  The assignments set the legacy flag exactly when the integer read for the
  sentinel is 4.
\<close>

theorem C1_roundtrip_amended:
  assumes "validVariables E ser r" and "codecAccepts setFrom ser v r"
  shows "constructFromSerialized E setFrom v (serialize ser r)
           = Some (Decoded, [],
               r\<lparr> tabbedSelectorSectionEnabled :=
                     (tabbedSelectorSectionEnabled r \<and> \<not> thirdSectionInfoEnabled r),
                   dialogsWidthRatio := decodeRatio (ratioSlot (dialogsWidthRatio r)),
                   hadLegacyCallsPeerToPeerNobody := False \<rparr>)
         \<and> decodeRatio (ratioSlot (dialogsWidthRatio r))
             = roundDouble
                 (real_of_int
                    (snap (sint (qRound (roundDouble (dialogsWidthRatio r * 1000000))))
                       0 1000000)
                  / 1000000)
         \<and> 0 \<le> decodeRatio (ratioSlot (dialogsWidthRatio r))
         \<and> decodeRatio (ratioSlot (dialogsWidthRatio r)) \<le> 1
         \<and> (0 \<le> n \<and> n \<le> 1000000
            \<longrightarrow> decodeRatio (ratioSlot (roundDouble (real_of_int n / 1000000)))
                  = roundDouble (real_of_int n / 1000000))
         \<and> decodeRatio (ratioSlot (decodeRatio (ratioSlot x))) = decodeRatio (ratioSlot x)
         \<and> (\<not> (tabbedSelectorSectionEnabled r \<and> thirdSectionInfoEnabled r)
              \<and> 0 \<le> n \<and> n \<le> 1000000
              \<and> dialogsWidthRatio r = roundDouble (real_of_int n / 1000000)
            \<longrightarrow> constructFromSerialized E setFrom v (serialize ser r)
                  = Some (Decoded, [], r\<lparr>hadLegacyCallsPeerToPeerNobody := False\<rparr>))
         \<and> hadLegacyCallsPeerToPeerNobody (commit E d w) = (l_legacyCallsPeerToPeer d = 4)"
proof -
  have d: "constructFromSerialized E setFrom v (truncateAfterGroup 20 ser r)
          = Some (Decoded, [], expectedPrefix E 20 r v)"
    using assms by (intro decode_truncated_valid) simp_all
  have "expectedPrefix E 20 r v
      = r\<lparr> tabbedSelectorSectionEnabled :=
                     (tabbedSelectorSectionEnabled r \<and> \<not> thirdSectionInfoEnabled r),
           dialogsWidthRatio := decodeRatio (ratioSlot (dialogsWidthRatio r)),
           hadLegacyCallsPeerToPeerNobody := False \<rparr>"
    by (simp add: expectedPrefix_def storedRatio_def)
  with d have general: "constructFromSerialized E setFrom v (serialize ser r)
           = Some (Decoded, [],
               r\<lparr> tabbedSelectorSectionEnabled :=
                     (tabbedSelectorSectionEnabled r \<and> \<not> thirdSectionInfoEnabled r),
                   dialogsWidthRatio := decodeRatio (ratioSlot (dialogsWidthRatio r)),
                   hadLegacyCallsPeerToPeerNobody := False \<rparr>)"
    by (simp only: serialize_truncate)
  have special: "constructFromSerialized E setFrom v (serialize ser r)
                  = Some (Decoded, [], r\<lparr>hadLegacyCallsPeerToPeerNobody := False\<rparr>)"
    if a: "\<not> (tabbedSelectorSectionEnabled r \<and> thirdSectionInfoEnabled r)"
      and b: "0 \<le> n" "n \<le> 1000000"
      and c: "dialogsWidthRatio r = roundDouble (real_of_int n / 1000000)"
  proof -
    have "storedRatio (dialogsWidthRatio r) = dialogsWidthRatio r"
      unfolding c by (rule storedRatio_millionths [OF b])
    then have "expectedPrefix E 20 r v = r\<lparr>hadLegacyCallsPeerToPeerNobody := False\<rparr>"
      using a by (auto simp add: expectedPrefix_def)
    with d show ?thesis by (simp only: serialize_truncate)
  qed
  have fixed: "decodeRatio (ratioSlot (roundDouble (real_of_int n / 1000000)))
                  = roundDouble (real_of_int n / 1000000)"
    if "0 \<le> n" "n \<le> 1000000"
    using storedRatio_millionths [OF that] by (simp only: storedRatio_def)
  have idem: "decodeRatio (ratioSlot (decodeRatio (ratioSlot x))) = decodeRatio (ratioSlot x)"
    using storedRatio_idem [of x] by (simp only: storedRatio_def)
  have stored: "decodeRatio (ratioSlot (dialogsWidthRatio r))
             = roundDouble
                 (real_of_int
                    (snap (sint (qRound (roundDouble (dialogsWidthRatio r * 1000000))))
                       0 1000000)
                  / 1000000)"
    using storedRatio_eq [of "dialogsWidthRatio r"] by (simp only: storedRatio_def)
  have range: "0 \<le> decodeRatio (ratioSlot (dialogsWidthRatio r))
      \<and> decodeRatio (ratioSlot (dialogsWidthRatio r)) \<le> 1"
    using storedRatio_range [of "dialogsWidthRatio r"] by (simp only: storedRatio_def)
  from general special stored range fixed idem commit_hadLegacy [of E d w]
  show ?thesis by blast
qed

theorem C1_roundtrip_witness:
  "validVariables sampleEnumerators sample_serialize sampleSettings
   \<and> codecAccepts sample_setFromSerialized sample_serialize currentSettings sampleSettings
   \<and> constructFromSerialized sampleEnumerators sample_setFromSerialized currentSettings
         (serialize sample_serialize sampleSettings)
       = Some (Decoded, [],
           sampleSettings
             \<lparr> tabbedSelectorSectionEnabled :=
                 (tabbedSelectorSectionEnabled sampleSettings
                  \<and> \<not> thirdSectionInfoEnabled sampleSettings),
               dialogsWidthRatio := decodeRatio (ratioSlot (dialogsWidthRatio sampleSettings)),
               hadLegacyCallsPeerToPeerNobody := False \<rparr>)
   \<and> decodeRatio (ratioSlot (1 / 4)) = 1 / 4
   \<and> constructFromSerialized sampleEnumerators sample_setFromSerialized currentSettings
         (serialize sample_serialize (sampleSettings\<lparr>dialogsWidthRatio := 1 / 4\<rparr>))
       = Some (Decoded, [],
           sampleSettings\<lparr>dialogsWidthRatio := 1 / 4,
                          hadLegacyCallsPeerToPeerNobody := False\<rparr>)"
proof -
  let ?q = "sampleSettings\<lparr>dialogsWidthRatio := 1 / 4\<rparr>"
  have valid: "validVariables sampleEnumerators sample_serialize ?q"
    using sample_valid by (simp add: validVariables_def enumsLegal_def containersFit_def)
  have acc: "codecAccepts sample_setFromSerialized sample_serialize currentSettings ?q"
    using sample_codecAccepts by (simp add: codecAccepts_def)
  have flags: "\<not> (tabbedSelectorSectionEnabled ?q \<and> thirdSectionInfoEnabled ?q)"
    by (simp add: sampleSettings_def)
  have double: "roundDouble (real_of_int 250000 / 1000000) = 1 / 4"
    by (simp add: double_simps)
  have ratio: "(0 :: int) \<le> 250000 \<and> (250000 :: int) \<le> 1000000
      \<and> dialogsWidthRatio ?q = roundDouble (real_of_int 250000 / 1000000)"
    unfolding double by simp
  from C1_roundtrip_amended [OF valid acc, of 250000] ratio
  have "decodeRatio (ratioSlot (roundDouble (real_of_int 250000 / 1000000)))
                  = roundDouble (real_of_int 250000 / 1000000)"
    by blast
  then have quarter: "decodeRatio (ratioSlot (1 / 4)) = 1 / 4"
    unfolding double .
  from C1_roundtrip_amended [OF valid acc, of 250000] flags ratio
  have "constructFromSerialized sampleEnumerators sample_setFromSerialized currentSettings
         (serialize sample_serialize ?q)
       = Some (Decoded, [], ?q\<lparr>hadLegacyCallsPeerToPeerNobody := False\<rparr>)"
    by blast
  moreover
  from C1_roundtrip_amended [OF sample_valid sample_codecAccepts]
  have "constructFromSerialized sampleEnumerators sample_setFromSerialized currentSettings
         (serialize sample_serialize sampleSettings)
       = Some (Decoded, [],
           sampleSettings
             \<lparr> tabbedSelectorSectionEnabled :=
                 (tabbedSelectorSectionEnabled sampleSettings
                  \<and> \<not> thirdSectionInfoEnabled sampleSettings),
               dialogsWidthRatio := decodeRatio (ratioSlot (dialogsWidthRatio sampleSettings)),
               hadLegacyCallsPeerToPeerNobody := False \<rparr>)"
    by (rule conjunct1)
  ultimately show ?thesis
    using sample_valid sample_codecAccepts quarter by simp
qed

subsection \<open>C2: a stream-read failure leaves the record as it was\<close>

text \<open>
  C2. Whatever the record held before, a non-empty blob on which a read of the
  stream fails (the status is not \<^verbatim>\<open>Ok\<close> after the reads) makes
  \<^verbatim>\<open>constructFromSerialized\<close> take the bad-data return: the diagnostic is
  logged and the record is returned with every field as it was, since the
  assignments come after the status check. A blob cut inside a field is such a
  blob: the blob of a record cut after group \<open>k\<close> (from 2 to 19) and followed
  by one to three more bytes, which are the start of the next integer.
\<close>

theorem C2_stream_failure_leaves_record:
  "(serialized \<noteq> [] \<and> readFields E v serialized = Some (stream, d) \<and> q_status stream \<noteq> Ok
      \<longrightarrow> constructFromSerialized E setFrom v serialized = Some (BadData, [badDataMessage], v))
   \<and> (containersFit ser r \<and> 2 \<le> k \<and> k < 20 \<and> extra \<noteq> [] \<and> length extra < 4
      \<longrightarrow> constructFromSerialized E setFrom v (truncateAfterGroup k ser r @ extra)
            = Some (BadData, [badDataMessage], v))"
  using decode_bad_stream [of serialized E v stream d setFrom]
    decode_cut_inside [of ser r k extra E setFrom v]
  by blast

theorem C2_stream_failure_witness:
  "constructFromSerialized sampleEnumerators sample_setFromSerialized currentSettings
       [0, 0, 0, 1, 0]
     = Some (BadData, [badDataMessage], currentSettings)
   \<and> constructFromSerialized sampleEnumerators sample_setFromSerialized currentSettings
       (truncateAfterGroup 5 sample_serialize sampleSettings @ [0, 0])
     = Some (BadData, [badDataMessage], currentSettings)"
proof -
  have "\<exists>d. readFields sampleEnumerators currentSettings [0, 0, 0, 1, 0]
          = Some (\<lparr>device = [], q_status = ReadPastEnd\<rparr>, d)"
    by (simp add: readFields_def openStream_def readTail_def read_qint32_def readBlock_def
        setStatus_def atEnd_def)
  then obtain d where
    rf: "readFields sampleEnumerators currentSettings [0, 0, 0, 1, 0]
          = Some (\<lparr>device = [], q_status = ReadPastEnd\<rparr>, d)"
    by blast
  have st: "q_status \<lparr>device = [], q_status = ReadPastEnd\<rparr> \<noteq> Ok" by simp
  have ne: "[0, 0, 0, 1, 0 :: byte] \<noteq> []" by simp
  have cut: "containersFit sample_serialize sampleSettings \<and> (2 :: nat) \<le> 5 \<and> (5 :: nat) < 20
      \<and> [0, 0 :: byte] \<noteq> [] \<and> length [0, 0 :: byte] < 4"
    using sample_containersFit by simp
  from C2_stream_failure_leaves_record
         [of "[0, 0, 0, 1, 0]" sampleEnumerators currentSettings
             "\<lparr>device = [], q_status = ReadPastEnd\<rparr>" d sample_setFromSerialized
             sample_serialize sampleSettings 5 "[0, 0]"]
       ne rf st cut
  show ?thesis by blast
qed

subsection \<open>C3: blobs cut at a group boundary\<close>

text \<open>
  C3, as stated, fails in three ways. For \<open>k = 1\<close> the decode fails: the
  source reads the first two integers without asking whether the stream has
  ended, so the blob of a valid record cut after its first group (four bytes)
  is bad data. For \<open>k = 2\<close> the decode into a freshly constructed record
  succeeds, but the fields of the groups 3 and 8 do not have their
  compile-time defaults: the tabbed-selector flag is true and the info-panel
  flag false, the initial values of the scratch variables (lines 111 and 117),
  where the defaults are false and true. And the fields of the groups from 9
  on are those the record held before the call: the blob of a freshly
  constructed record cut after group 8, decoded into \<open>sampleSettings\<close>,
  leaves the third-column width 300 of \<open>sampleSettings\<close>, where the default
  is 0.
\<close>

theorem C3_prefix_truncation_counterexample:
  "validVariables sampleEnumerators sample_serialize sampleSettings
   \<and> truncateAfterGroup 1 sample_serialize sampleSettings = [0, 0, 0, 1]
   \<and> constructFromSerialized sampleEnumerators sample_setFromSerialized currentSettings
         (truncateAfterGroup 1 sample_serialize sampleSettings)
       = Some (BadData, [badDataMessage], currentSettings)
   \<and> truncateAfterGroup 2 sample_serialize sampleSettings = [0, 0, 0, 1, 0, 0, 0, 1]
   \<and> constructFromSerialized sampleEnumerators sample_setFromSerialized
         (defaultVariables sampleEnumerators [])
         (truncateAfterGroup 2 sample_serialize sampleSettings)
       = Some (Decoded, [],
           (defaultVariables sampleEnumerators [])
             \<lparr>selectorTab := 1, lastSeenWarningSeen := True,
              tabbedSelectorSectionEnabled := True, thirdSectionInfoEnabled := False\<rparr>)
   \<and> tabbedSelectorSectionEnabled (defaultVariables sampleEnumerators []) = False
   \<and> thirdSectionInfoEnabled (defaultVariables sampleEnumerators []) = True
   \<and> validVariables sampleEnumerators sample_serialize
         (defaultVariables sampleEnumerators [])
   \<and> constructFromSerialized sampleEnumerators sample_setFromSerialized sampleSettings
         (truncateAfterGroup 8 sample_serialize (defaultVariables sampleEnumerators []))
       = Some (Decoded, [],
           expectedPrefix sampleEnumerators 8 (defaultVariables sampleEnumerators [])
             sampleSettings)
   \<and> thirdColumnWidth
         (expectedPrefix sampleEnumerators 8 (defaultVariables sampleEnumerators [])
            sampleSettings) = 300
   \<and> thirdColumnWidth (defaultVariables sampleEnumerators []) = 0"
proof -
  have one: "truncateAfterGroup 1 sample_serialize sampleSettings = [0, 0, 0, 1]"
    by (simp add: truncateAfterGroup_def fieldGroups_def sampleSettings_def write_qint32_def)
  have bad: "constructFromSerialized sampleEnumerators sample_setFromSerialized currentSettings
         (truncateAfterGroup 1 sample_serialize sampleSettings)
       = Some (BadData, [badDataMessage], currentSettings)"
    using decode_first_group_only
        [of sampleEnumerators sample_setFromSerialized currentSettings sample_serialize
            sampleSettings]
    by simp
  have two: "truncateAfterGroup 2 sample_serialize sampleSettings = [0, 0, 0, 1, 0, 0, 0, 1]"
    by (simp add: truncateAfterGroup_def fieldGroups_def sampleSettings_def write_qint32_def
        write_bool_def)
  have "constructFromSerialized sampleEnumerators sample_setFromSerialized
         (defaultVariables sampleEnumerators [])
         (truncateAfterGroup 2 sample_serialize sampleSettings)
       = Some (Decoded, [],
           expectedPrefix sampleEnumerators 2 sampleSettings
             (defaultVariables sampleEnumerators []))"
    using sample_valid by (intro decode_truncated_valid) simp_all
  moreover have "expectedPrefix sampleEnumerators 2 sampleSettings
             (defaultVariables sampleEnumerators [])
       = (defaultVariables sampleEnumerators [])
             \<lparr>selectorTab := 1, lastSeenWarningSeen := True,
              tabbedSelectorSectionEnabled := True, thirdSectionInfoEnabled := False\<rparr>"
    by (simp add: expectedPrefix_def sampleSettings_def defaultVariables_def
        sampleEnumerators_def)
  ultimately have fresh: "constructFromSerialized sampleEnumerators sample_setFromSerialized
         (defaultVariables sampleEnumerators [])
         (truncateAfterGroup 2 sample_serialize sampleSettings)
       = Some (Decoded, [],
           (defaultVariables sampleEnumerators [])
             \<lparr>selectorTab := 1, lastSeenWarningSeen := True,
              tabbedSelectorSectionEnabled := True, thirdSectionInfoEnabled := False\<rparr>)"
    by simp
  have defaults: "tabbedSelectorSectionEnabled (defaultVariables sampleEnumerators []) = False
      \<and> thirdSectionInfoEnabled (defaultVariables sampleEnumerators []) = True
      \<and> thirdColumnWidth (defaultVariables sampleEnumerators []) = 0"
    by (simp add: defaultVariables_def)
  have prior: "constructFromSerialized sampleEnumerators sample_setFromSerialized sampleSettings
         (truncateAfterGroup 8 sample_serialize (defaultVariables sampleEnumerators []))
       = Some (Decoded, [],
           expectedPrefix sampleEnumerators 8 (defaultVariables sampleEnumerators [])
             sampleSettings)"
    using default_valid by (intro decode_truncated_valid) simp_all
  have width: "thirdColumnWidth
         (expectedPrefix sampleEnumerators 8 (defaultVariables sampleEnumerators [])
            sampleSettings) = 300"
    by (simp add: expectedPrefix_def sampleSettings_def)
  show ?thesis
    using sample_valid one bad two fresh defaults default_valid prior width by blast
qed

text \<open>
  C3, amended. For every valid record \<open>r\<close> and every \<open>k\<close> from 2 to 20, the
  blob of \<open>r\<close> cut immediately after group \<open>k\<close> (a prefix of the blob) decodes
  successfully into any record \<open>v\<close>, provided the delegated codec gives back
  the auto-download settings when the cut keeps them (\<open>k\<close> from 17). In the
  result the fields of the groups up to \<open>k\<close> are those of \<open>r\<close>, with the ratio
  as it is stored (the double nearest to the integer of the blob over 1000000)
  and the tabbed-selector flag false when the info-panel flag was read true.
  The fields of the later groups have the initial values of the scratch
  variables: for the groups 3 to 8 the constants of the source (tabbed selector
  enabled, no sound overrides, tooltip counter 0, column Second, corner
  TopRight, no hidden sections, info panel off, small dialogs off); for the
  groups 9, 10 and 12 to 20 the values \<open>v\<close> held before the call, which are
  the compile-time defaults when \<open>v\<close> is freshly constructed. The legacy flag
  (group 11) is false in every case, whatever \<open>v\<close> held: the sentinel is
  written as 0, and the scratch variable starts at 0 when it is not read.
\<close>

theorem C3_prefix_truncation_amended:
  assumes "validVariables E ser r" and "2 \<le> k" and "k \<le> 20"
    and "17 \<le> k \<longrightarrow> codecAccepts setFrom ser v r"
  shows "constructFromSerialized E setFrom v (truncateAfterGroup k ser r)
           = Some (Decoded, [], expectedPrefix E k r v)
         \<and> truncateAfterGroup k ser r
           = take (length (truncateAfterGroup k ser r)) (serialize ser r)"
proof -
  have "constructFromSerialized E setFrom v (truncateAfterGroup k ser r)
           = Some (Decoded, [], expectedPrefix E k r v)"
    using assms by (intro decode_truncated_valid) simp_all
  then show ?thesis using truncateAfterGroup_prefix [of k ser r] by simp
qed

theorem C3_prefix_truncation_witness:
  "validVariables sampleEnumerators sample_serialize sampleSettings
   \<and> codecAccepts sample_setFromSerialized sample_serialize currentSettings sampleSettings
   \<and> constructFromSerialized sampleEnumerators sample_setFromSerialized currentSettings
         (truncateAfterGroup 18 sample_serialize sampleSettings)
       = Some (Decoded, [], expectedPrefix sampleEnumerators 18 sampleSettings currentSettings)
   \<and> supportAllSearchResults
         (expectedPrefix sampleEnumerators 18 sampleSettings currentSettings)
       = supportAllSearchResults sampleSettings
   \<and> archiveCollapsed (expectedPrefix sampleEnumerators 18 sampleSettings currentSettings)
       = archiveCollapsed currentSettings
   \<and> archiveCollapsed currentSettings \<noteq> archiveCollapsed sampleSettings
   \<and> hadLegacyCallsPeerToPeerNobody
         (expectedPrefix sampleEnumerators 18 sampleSettings currentSettings) = False"
proof -
  have "(17 :: nat) \<le> 18
      \<longrightarrow> codecAccepts sample_setFromSerialized sample_serialize currentSettings sampleSettings"
    using sample_codecAccepts by simp
  from C3_prefix_truncation_amended [OF sample_valid _ _ this]
  have "constructFromSerialized sampleEnumerators sample_setFromSerialized currentSettings
         (truncateAfterGroup 18 sample_serialize sampleSettings)
       = Some (Decoded, [], expectedPrefix sampleEnumerators 18 sampleSettings currentSettings)"
    by simp
  then show ?thesis
    using sample_valid sample_codecAccepts
    by (simp add: expectedPrefix_def sampleSettings_def currentSettings_def
        defaultVariables_def)
qed

subsection \<open>C4: an out-of-range selector tab\<close>

text \<open>
  C4. An integer outside Emoji, Stickers and Gifs in the selector-tab slot is
  not a decode error and leaves the selector tab of the record as it was.
  First, for any blob: if the blob decodes successfully with some integer
  \<open>t'\<close> in the slot, it decodes successfully with the out-of-range integer
  \<open>t\<close> in its place, with the same log and the same record except that the
  selector tab is the one the record held before. Second, the blob of any
  record-shaped content \<open>r\<close> with well-formed containers, an accepted
  auto-download sub-blob and an out-of-range selector tab decodes successfully
  and the selector tab keeps its prior value.
\<close>

theorem C4_selector_tab_out_of_range:
  "(t \<notin> {SelectorTab_Emoji E, SelectorTab_Stickers E, SelectorTab_Gifs E}
      \<and> constructFromSerialized E setFrom (v :: 'ad Variables) (write_qint32 t' @ rest)
          = Some (Decoded, lg, v')
    \<longrightarrow> constructFromSerialized E setFrom v (write_qint32 t @ rest)
          = Some (Decoded, lg, v'\<lparr>selectorTab := selectorTab v\<rparr>))
   \<and> (selectorTab (r :: 'ad Variables) \<notin> {SelectorTab_Emoji E, SelectorTab_Stickers E, SelectorTab_Gifs E}
      \<and> containersFit ser r
      \<and> setFrom (autoDownload v) (ser (autoDownload r)) = (True, a)
    \<longrightarrow> (\<exists>v''. constructFromSerialized E setFrom v (serialize ser r)
                  = Some (Decoded, [], v'')
              \<and> selectorTab v'' = selectorTab v))"
proof -
  have first: "constructFromSerialized E setFrom v (write_qint32 t @ rest)
          = Some (Decoded, lg, v'\<lparr>selectorTab := selectorTab v\<rparr>)"
    if "t \<notin> {SelectorTab_Emoji E, SelectorTab_Stickers E, SelectorTab_Gifs E}"
      and "constructFromSerialized E setFrom v (write_qint32 t' @ rest) = Some (Decoded, lg, v')"
    using that by (intro decode_tab_illegal [of t E setFrom v t' rest lg v']) simp_all
  have second: "\<exists>v''. constructFromSerialized E setFrom v (serialize ser r)
                  = Some (Decoded, [], v'')
              \<and> selectorTab v'' = selectorTab v"
    if out: "selectorTab r \<notin> {SelectorTab_Emoji E, SelectorTab_Stickers E, SelectorTab_Gifs E}"
      and fit: "containersFit ser r"
      and acc: "setFrom (autoDownload v) (ser (autoDownload r)) = (True, a)"
  proof -
    have "constructFromSerialized E setFrom v (truncateAfterGroup 20 ser r)
        = (if ser (autoDownload r) \<noteq> []
           then Some (Decoded, [], commit E (localsAfter E 20 ser r v) (v\<lparr>autoDownload := a\<rparr>))
           else Some (Decoded, [], commit E (localsAfter E 20 ser r v) v))"
      using decode_truncated [OF fit, of 20 E setFrom v] acc by simp
    then show ?thesis
      using out by (simp add: serialize_truncate commit_localsAfter_selectorTab)
  qed
  from first second show ?thesis by blast
qed

theorem C4_selector_tab_witness:
  "(7 :: qint32) \<notin> {SelectorTab_Emoji sampleEnumerators, SelectorTab_Stickers sampleEnumerators,
        SelectorTab_Gifs sampleEnumerators}
   \<and> constructFromSerialized sampleEnumerators sample_setFromSerialized currentSettings
         (write_qint32 7 @ drop 4 (serialize sample_serialize sampleSettings))
       = Some (Decoded, [],
           sampleSettings\<lparr>dialogsWidthRatio := roundDouble (333008 / 1000000),
                          selectorTab := selectorTab currentSettings\<rparr>)
   \<and> (\<exists>v''. constructFromSerialized sampleEnumerators sample_setFromSerialized currentSettings
                (serialize sample_serialize (sampleSettings\<lparr>selectorTab := 7\<rparr>))
              = Some (Decoded, [], v'')
            \<and> selectorTab v'' = selectorTab currentSettings)"
proof -
  let ?r = "sampleSettings\<lparr>selectorTab := 7\<rparr>"
  let ?rest = "drop 4 (serialize sample_serialize sampleSettings)"
  have seven: "(7 :: qint32) \<notin> {SelectorTab_Emoji sampleEnumerators,
      SelectorTab_Stickers sampleEnumerators, SelectorTab_Gifs sampleEnumerators}"
    by (simp add: sampleEnumerators_def)
  have out: "selectorTab ?r \<notin> {SelectorTab_Emoji sampleEnumerators,
      SelectorTab_Stickers sampleEnumerators, SelectorTab_Gifs sampleEnumerators}"
    by (simp add: sampleEnumerators_def)
  have fit: "containersFit sample_serialize ?r"
    using sample_containersFit by (simp add: containersFit_def)
  have acc: "sample_setFromSerialized (autoDownload currentSettings)
      (sample_serialize (autoDownload ?r)) = (True, autoDownload sampleSettings)"
    by (simp add: sample_setFromSerialized_def sample_serialize_def)
  have "write_qint32 1 @ ?rest = serialize sample_serialize sampleSettings"
    using serialize_head [of sample_serialize sampleSettings]
    by (simp add: sampleSettings_def)
  then have legal: "constructFromSerialized sampleEnumerators sample_setFromSerialized
      currentSettings (write_qint32 1 @ ?rest)
      = Some (Decoded, [], sampleSettings\<lparr>dialogsWidthRatio := roundDouble (333008 / 1000000)\<rparr>)"
    using sample_decode by simp
  from C4_selector_tab_out_of_range
         [of 7 sampleEnumerators sample_setFromSerialized currentSettings 1 ?rest "[]"
             "sampleSettings\<lparr>dialogsWidthRatio := roundDouble (333008 / 1000000)\<rparr>"
             ?r sample_serialize "autoDownload sampleSettings"]
       seven legal out fit acc
  show ?thesis by simp
qed

subsection \<open>C5: the info panel switches the tabbed selector off\<close>

text \<open>
  C5. In the record of every successful decode, an enabled info panel
  (\<^verbatim>\<open>thirdSectionInfoEnabled\<close>) goes with a disabled tabbed selector, whatever
  the blob said about the tabbed selector. In particular the blob of a record
  with both flags true (well-formed containers, accepted auto-download
  sub-blob) decodes to a record with the info panel enabled and the tabbed
  selector disabled.
\<close>

theorem C5_info_panel_disables_tabbed_selector:
  "(constructFromSerialized E setFrom (v :: 'ad Variables) serialized = Some (Decoded, lg, v')
      \<and> thirdSectionInfoEnabled v'
    \<longrightarrow> \<not> tabbedSelectorSectionEnabled v')
   \<and> (containersFit ser (r :: 'ad Variables) \<and> setFrom (autoDownload v) (ser (autoDownload r)) = (True, a)
      \<and> thirdSectionInfoEnabled r \<and> tabbedSelectorSectionEnabled r
    \<longrightarrow> (\<exists>v''. constructFromSerialized E setFrom v (serialize ser r)
                  = Some (Decoded, [], v'')
              \<and> thirdSectionInfoEnabled v'' \<and> \<not> tabbedSelectorSectionEnabled v''))"
proof -
  have first: "\<not> tabbedSelectorSectionEnabled v'"
    if "constructFromSerialized E setFrom v serialized = Some (Decoded, lg, v')"
      and "thirdSectionInfoEnabled v'"
    using decode_exclusive [OF that(1)] that(2) by simp
  have second: "\<exists>v''. constructFromSerialized E setFrom v (serialize ser r)
                  = Some (Decoded, [], v'')
              \<and> thirdSectionInfoEnabled v'' \<and> \<not> tabbedSelectorSectionEnabled v''"
    if fit: "containersFit ser r"
      and acc: "setFrom (autoDownload v) (ser (autoDownload r)) = (True, a)"
      and both: "thirdSectionInfoEnabled r" "tabbedSelectorSectionEnabled r"
  proof -
    have "constructFromSerialized E setFrom v (truncateAfterGroup 20 ser r)
        = (if ser (autoDownload r) \<noteq> []
           then Some (Decoded, [], commit E (localsAfter E 20 ser r v) (v\<lparr>autoDownload := a\<rparr>))
           else Some (Decoded, [], commit E (localsAfter E 20 ser r v) v))"
      using decode_truncated [OF fit, of 20 E setFrom v] acc by simp
    then show ?thesis
      using both by (simp add: serialize_truncate commit_localsAfter_panels)
  qed
  from first second show ?thesis by blast
qed

theorem C5_info_panel_witness:
  "thirdSectionInfoEnabled (sampleSettings\<lparr>dialogsWidthRatio := roundDouble (333008 / 1000000)\<rparr>)
   \<and> \<not> tabbedSelectorSectionEnabled
         (sampleSettings\<lparr>dialogsWidthRatio := roundDouble (333008 / 1000000)\<rparr>)
   \<and> thirdSectionInfoEnabled (sampleSettings\<lparr>tabbedSelectorSectionEnabled := True\<rparr>)
   \<and> tabbedSelectorSectionEnabled (sampleSettings\<lparr>tabbedSelectorSectionEnabled := True\<rparr>)
   \<and> (\<exists>v''. constructFromSerialized sampleEnumerators sample_setFromSerialized currentSettings
                (serialize sample_serialize
                   (sampleSettings\<lparr>tabbedSelectorSectionEnabled := True\<rparr>))
              = Some (Decoded, [], v'')
            \<and> thirdSectionInfoEnabled v'' \<and> \<not> tabbedSelectorSectionEnabled v'')"
proof -
  let ?r = "sampleSettings\<lparr>tabbedSelectorSectionEnabled := True\<rparr>"
  let ?v' = "sampleSettings\<lparr>dialogsWidthRatio := roundDouble (333008 / 1000000)\<rparr>"
  have third: "thirdSectionInfoEnabled ?v'"
    by (simp add: sampleSettings_def)
  have both: "thirdSectionInfoEnabled ?r" "tabbedSelectorSectionEnabled ?r"
    by (simp_all add: sampleSettings_def)
  have fit: "containersFit sample_serialize ?r"
    using sample_containersFit by (simp add: containersFit_def)
  have acc: "sample_setFromSerialized (autoDownload currentSettings)
      (sample_serialize (autoDownload ?r)) = (True, autoDownload sampleSettings)"
    by (simp add: sample_setFromSerialized_def sample_serialize_def)
  from C5_info_panel_disables_tabbed_selector
         [of sampleEnumerators sample_setFromSerialized currentSettings
             "serialize sample_serialize sampleSettings" "[]" ?v'
             sample_serialize ?r "autoDownload sampleSettings"]
       sample_decode third both fit acc
  show ?thesis by blast
qed

subsection \<open>C6: a rejected auto-download sub-blob\<close>

text \<open>
  C6. Whatever the record held before, when the reads succeed, the
  auto-download sub-blob read from the blob is not empty and the delegated
  decoder rejects it, \<^verbatim>\<open>constructFromSerialized\<close> returns before any assignment
  of its own: nothing of the rest of the blob is kept, and the record is what it
  was but for what the delegated decoder did to the auto-download settings
  before it answered. With a delegated decoder that leaves its settings alone
  when it rejects, as the specification has it, the record is unchanged. The
  blob of a record cut after group 17 or later, whose sub-blob the delegated
  decoder rejects, is such a blob.
\<close>

theorem C6_rejected_sub_blob_aborts:
  "(serialized \<noteq> [] \<and> readFields E (v :: 'ad Variables) serialized = Some (stream, d)
      \<and> q_status stream = Ok
      \<and> l_autoDownload d \<noteq> []
      \<and> setFrom (autoDownload v) (l_autoDownload d) = (False, autoDownload v)
    \<longrightarrow> constructFromSerialized E setFrom v serialized = Some (AutoDownloadRejected, [], v))
   \<and> (serialized \<noteq> [] \<and> readFields E v serialized = Some (stream, d)
      \<and> q_status stream = Ok
      \<and> l_autoDownload d \<noteq> []
      \<and> setFrom (autoDownload v) (l_autoDownload d) = (False, a)
    \<longrightarrow> constructFromSerialized E setFrom v serialized
          = Some (AutoDownloadRejected, [], v\<lparr>autoDownload := a\<rparr>))
   \<and> (containersFit ser (r :: 'ad Variables) \<and> 17 \<le> k \<and> k \<le> 20
      \<and> ser (autoDownload r) \<noteq> []
      \<and> setFrom (autoDownload v) (ser (autoDownload r)) = (False, autoDownload v)
    \<longrightarrow> constructFromSerialized E setFrom v (truncateAfterGroup k ser r)
          = Some (AutoDownloadRejected, [], v))"
proof -
  have first: "constructFromSerialized E setFrom v serialized = Some (AutoDownloadRejected, [], v)"
    if "serialized \<noteq> []" "readFields E v serialized = Some (stream, d)"
      "q_status stream = Ok" "l_autoDownload d \<noteq> []"
      "setFrom (autoDownload v) (l_autoDownload d) = (False, autoDownload v)"
    using decode_rejected [of serialized E v stream d setFrom "autoDownload v"] that by simp
  have third: "constructFromSerialized E setFrom v (truncateAfterGroup k ser r)
          = Some (AutoDownloadRejected, [], v)"
    if fit: "containersFit ser r" and k: "17 \<le> k" "k \<le> 20"
      and ne: "ser (autoDownload r) \<noteq> []"
      and rej: "setFrom (autoDownload v) (ser (autoDownload r)) = (False, autoDownload v)"
  proof -
    have "2 \<le> k" using k(1) by simp
    from decode_truncated [OF fit this k(2), of E setFrom v] k(1) ne rej
    show ?thesis by simp
  qed
  from first third decode_rejected [of serialized E v stream d setFrom a]
  show ?thesis by blast
qed

theorem C6_rejected_sub_blob_witness:
  "sample_serialize_v2 (autoDownload sampleSettings) \<noteq> []
   \<and> sample_setFromSerialized (autoDownload currentSettings)
       (sample_serialize_v2 (autoDownload sampleSettings))
     = (False, autoDownload currentSettings)
   \<and> constructFromSerialized sampleEnumerators sample_setFromSerialized currentSettings
       (truncateAfterGroup 20 sample_serialize_v2 sampleSettings)
     = Some (AutoDownloadRejected, [], currentSettings)
   \<and> constructFromSerialized sampleEnumerators sample_setFromSerialized currentSettings
       (truncateAfterGroup 17 sample_serialize_v2 sampleSettings)
     = Some (AutoDownloadRejected, [], currentSettings)"
proof -
  let ?blob = "truncateAfterGroup 20 sample_serialize_v2 sampleSettings"
  let ?d = "localsAfter sampleEnumerators 20 sample_serialize_v2 sampleSettings currentSettings"
  have ne: "sample_serialize_v2 (autoDownload sampleSettings) \<noteq> []"
    by (simp add: sample_serialize_v2_def)
  have rej: "sample_setFromSerialized (autoDownload currentSettings)
       (sample_serialize_v2 (autoDownload sampleSettings))
     = (False, autoDownload currentSettings)"
    by (simp add: sample_setFromSerialized_def sample_serialize_v2_def)
  have blob: "?blob \<noteq> []" by (intro truncateAfterGroup_not_Nil) simp
  have ok: "q_status \<lparr>device = [], q_status = Ok\<rparr> = Ok" by simp
  have sub: "l_autoDownload ?d = sample_serialize_v2 (autoDownload sampleSettings)"
    by (simp add: localsAfter_def)
  have k: "(17 :: nat) \<le> 17 \<and> (17 :: nat) \<le> 20" by simp
  from C6_rejected_sub_blob_aborts
         [of ?blob sampleEnumerators currentSettings "\<lparr>device = [], q_status = Ok\<rparr>" ?d
             sample_setFromSerialized "autoDownload currentSettings"
             sample_serialize_v2 sampleSettings 17]
       blob sample_v2_readFields ok sub sample_v2_containersFit ne rej k
  show ?thesis by simp
qed

subsection \<open>C7: the ratio is clamped\<close>

text \<open>
  C7. The dialogs-width ratio is decoded from a four-byte signed integer \<open>raw\<close>
  as \<open>raw / 1000000\<close>, a double division, clamped to the range from 0 to 1:
  it is 1 for every \<open>raw\<close> above 1000000 (1500000 for one), 0 for every
  negative \<open>raw\<close> and the double nearest to \<open>raw / 1000000\<close> in between
  (0.25 for 250000). A blob that ends with group 9 and carries \<open>raw\<close> in the
  ratio slot decodes successfully to a record with that ratio.
\<close>

theorem C7_ratio_clamp:
  "decodeRatio raw = snap (roundDouble (real_of_int (sint raw) / 1000000)) 0 1
   \<and> 0 \<le> decodeRatio raw \<and> decodeRatio raw \<le> 1
   \<and> (1000000 < sint raw \<longrightarrow> decodeRatio raw = 1)
   \<and> (sint raw < 0 \<longrightarrow> decodeRatio raw = 0)
   \<and> (0 \<le> sint raw \<and> sint raw \<le> 1000000
        \<longrightarrow> decodeRatio raw = roundDouble (real_of_int (sint raw) / 1000000))
   \<and> (containersFit ser (r :: 'ad Variables)
        \<longrightarrow> (\<exists>v'. constructFromSerialized E setFrom (v :: 'ad Variables)
                     (truncateAfterGroup 8 ser r
                        @ write_qint32 raw @ write_qint32 w @ write_qint32 e)
                   = Some (Decoded, [], v')
                 \<and> dialogsWidthRatio v' = decodeRatio raw))"
proof -
  have "decodeRatio raw = snap (roundDouble (real_of_int (sint raw) / 1000000)) 0 1"
    by (simp only: decodeRatio_def)
  moreover have "(1000000 < sint raw \<longrightarrow> decodeRatio raw = 1)
      \<and> (sint raw < 0 \<longrightarrow> decodeRatio raw = 0)
      \<and> (0 \<le> sint raw \<and> sint raw \<le> 1000000
          \<longrightarrow> decodeRatio raw = roundDouble (real_of_int (sint raw) / 1000000))"
    using decodeRatio_cases [of raw] by (auto split: if_splits)
  ultimately show ?thesis
    using decodeRatio_cases [of raw] decode_raw_ratio [of ser r E setFrom v raw w e]
    by blast
qed

theorem C7_ratio_clamp_witness:
  "decodeRatio 1500000 = 1
   \<and> decodeRatio (- 1) = 0
   \<and> decodeRatio 250000 = 1 / 4
   \<and> (\<exists>v'. constructFromSerialized sampleEnumerators sample_setFromSerialized currentSettings
               (truncateAfterGroup 8 sample_serialize sampleSettings
                  @ write_qint32 1500000 @ write_qint32 300 @ write_qint32 0)
             = Some (Decoded, [], v')
           \<and> dialogsWidthRatio v' = 1)"
proof -
  have big: "1000000 < sint (1500000 :: qint32)" by simp
  have neg: "sint (- 1 :: qint32) < 0" by simp
  have mid: "0 \<le> sint (250000 :: qint32) \<and> sint (250000 :: qint32) \<le> 1000000" by simp
  have a: "decodeRatio 1500000 = 1"
    using C7_ratio_clamp
            [of 1500000 sample_serialize sampleSettings sampleEnumerators
                sample_setFromSerialized currentSettings 300 0] big
    by blast
  have b: "decodeRatio (- 1) = 0"
    using C7_ratio_clamp
            [of "- 1" sample_serialize sampleSettings sampleEnumerators
                sample_setFromSerialized currentSettings 300 0] neg
    by blast
  have c: "decodeRatio 250000 = 1 / 4"
  proof -
    have "decodeRatio 250000 = roundDouble (real_of_int (sint (250000 :: qint32)) / 1000000)"
      using C7_ratio_clamp
              [of 250000 sample_serialize sampleSettings sampleEnumerators
                  sample_setFromSerialized currentSettings 300 0] mid
      by blast
    then show ?thesis by (simp add: double_simps)
  qed
  have "\<exists>v'. constructFromSerialized sampleEnumerators sample_setFromSerialized currentSettings
               (truncateAfterGroup 8 sample_serialize sampleSettings
                  @ write_qint32 1500000 @ write_qint32 300 @ write_qint32 0)
             = Some (Decoded, [], v')
           \<and> dialogsWidthRatio v' = decodeRatio 1500000"
    using C7_ratio_clamp
            [of 1500000 sample_serialize sampleSettings sampleEnumerators
                sample_setFromSerialized currentSettings 300 0] sample_containersFit
    by blast
  then show ?thesis using a b c by simp
qed

subsection \<open>C8: the setters keep the panels exclusive\<close>

text \<open>
  C8. The two panel flags of a settings object are written by the setters and
  by \<^verbatim>\<open>constructFromSerialized\<close> only, and a freshly constructed object has the
  tabbed-selector flag false. So on every settings object the program reaches,
  a freshly constructed one after any sequence of calls of the setters and of
  \<^verbatim>\<open>constructFromSerialized\<close> (with any blobs and any delegated decoder): the
  sequence returns; the two flags are not both true; after
  \<^verbatim>\<open>setTabbedSelectorSectionEnabled(true)\<close> the tabbed-selector flag is true and
  the info-panel flag false; after \<^verbatim>\<open>setThirdSectionInfoEnabled(true)\<close> the
  info-panel flag is true and the tabbed-selector flag false; and after any
  further calls of the setters the two flags are still not both true. The
  call \<^verbatim>\<open>setTabbedSelectorSectionEnabled(true)\<close> leaves the info-panel flag
  false on any object \<open>s0\<close> whatever.
\<close>

theorem C8_setters_keep_panels_exclusive:
  "\<not> thirdSectionInfoEnabled (variables (setTabbedSelectorSectionEnabled True s0))
   \<and> (\<exists>s. applyOperations E setFrom operations (newAuthSessionSettings E a) = Some s
          \<and> panelsExclusive s
          \<and> tabbedSelectorSectionEnabled (variables (setTabbedSelectorSectionEnabled True s))
          \<and> \<not> thirdSectionInfoEnabled (variables (setTabbedSelectorSectionEnabled True s))
          \<and> thirdSectionInfoEnabled (variables (setThirdSectionInfoEnabled True s))
          \<and> \<not> tabbedSelectorSectionEnabled (variables (setThirdSectionInfoEnabled True s))
          \<and> panelsExclusive (applyCalls calls s))"
proof -
  obtain s where
    run: "applyOperations E setFrom operations (newAuthSessionSettings E a) = Some s"
    and ex: "panelsExclusive s"
    using applyOperations_exclusive [of "newAuthSessionSettings E a" E setFrom operations]
      newAuthSessionSettings_exclusive [of E a]
    by blast
  have "tabbedSelectorSectionEnabled (variables (setTabbedSelectorSectionEnabled True s))"
    by (simp add: Let_def setTabbedReplacedWithInfo_def)
  moreover have "thirdSectionInfoEnabled (variables (setThirdSectionInfoEnabled True s))"
    by (simp add: Let_def setTabbedReplacedWithInfo_def)
  ultimately show ?thesis
    using run ex setTabbed_True_third [of s0] setTabbed_True_third [of s]
      setThird_True_tabbed [OF ex] applyCalls_exclusive [OF ex, of calls]
    by blast
qed

theorem C8_setters_witness:
  "(\<exists>s. applyOperations sampleEnumerators sample_setFromSerialized
            [CallSetter (SetTabbedSelectorSectionEnabled True),
             CallConstructFromSerialized (serialize sample_serialize sampleSettings),
             CallSetter (SetThirdSectionInfoEnabled True),
             CallSetter (SetTabbedSelectorSectionEnabled True),
             CallSetter (SetThirdSectionInfoEnabled True)]
            (newAuthSessionSettings sampleEnumerators []) = Some s
        \<and> panelsExclusive s
        \<and> \<not> thirdSectionInfoEnabled (variables (setTabbedSelectorSectionEnabled True s))
        \<and> \<not> tabbedSelectorSectionEnabled (variables (setThirdSectionInfoEnabled True s)))
   \<and> thirdSectionInfoEnabled (variables infoPanelOnly)
   \<and> tabbedSelectorSectionEnabled
         (variables (setTabbedSelectorSectionEnabled True infoPanelOnly))
   \<and> \<not> thirdSectionInfoEnabled
         (variables (setTabbedSelectorSectionEnabled True infoPanelOnly))"
proof -
  have "thirdSectionInfoEnabled (variables infoPanelOnly)"
    by (simp add: infoPanelOnly_def newAuthSessionSettings_def defaultVariables_def)
  moreover have "tabbedSelectorSectionEnabled
         (variables (setTabbedSelectorSectionEnabled True infoPanelOnly))"
    by (simp add: Let_def setTabbedReplacedWithInfo_def)
  ultimately show ?thesis
    using C8_setters_keep_panels_exclusive
            [of infoPanelOnly sampleEnumerators sample_setFromSerialized
                "[CallSetter (SetTabbedSelectorSectionEnabled True),
                  CallConstructFromSerialized (serialize sample_serialize sampleSettings),
                  CallSetter (SetThirdSectionInfoEnabled True),
                  CallSetter (SetTabbedSelectorSectionEnabled True),
                  CallSetter (SetThirdSectionInfoEnabled True)]" "[]" "[]"]
    by blast
qed

subsection \<open>C9: the empty blob\<close>

text \<open>
  C9. Decoding the empty byte sequence returns at once: nothing is written to
  the log and the record is returned as it was, whatever it held. The call is
  not counted as bad data.
\<close>

theorem C9_empty_blob_is_noop:
  "constructFromSerialized E setFromSerialized v [] = Some (EmptyInput, [], v)"
  by (simp add: constructFromSerialized_def)

subsection \<open>C10: the decode returns\<close>

text \<open>
  C10. \<^verbatim>\<open>constructFromSerialized\<close> returns on every byte sequence. The two
  counted loops return for every count, negative counts and counts beyond what
  the stream holds included: the counter, which wraps around at 32 bits, reaches
  the count, and each round ends, because a read from an exhausted stream fails
  at once.
\<close>

theorem C10_constructFromSerialized_returns:
  "(\<exists>r. soundOverridesLoop 0 count stream m = Some r)
   \<and> (\<exists>r. groupStickersLoop 0 count stream h = Some r)
   \<and> (\<exists>res. constructFromSerialized E setFromSerialized v serialized = Some res)"
proof -
  obtain st where "readFields E v serialized = Some st" using readFields_returns by blast
  then have "\<exists>res. constructFromSerialized E setFromSerialized v serialized = Some res"
    by (cases st) (auto simp add: constructFromSerialized_def split: option.split prod.split)
  then show ?thesis using soundOverridesLoop_returns groupStickersLoop_returns by blast
qed

end
